theory Spec2Isabelle
  imports Main "HOL-Library.Word"
begin

section \<open>Strings\<close>

text \<open>
  A \<open>QString\<close> is modelled as a \<^typ>\<open>string\<close>. The null and the empty \<open>QString\<close> compare
  equal and both answer \<open>isEmpty()\<close>, so both are the empty list; where the source asks
  \<open>isNull()\<close> the value is an option. Only the ASCII part of \<open>toLower\<close> and of the digit
  class \<open>\d\<close> is modelled. \<open>QString::arg\<close> is modelled as the concatenation it produces
  when the arguments hold no place marker of their own.
\<close>

definition toLower_char :: "char \<Rightarrow> char" where
  "toLower_char c =
     (case map_of (zip ''ABCDEFGHIJKLMNOPQRSTUVWXYZ'' ''abcdefghijklmnopqrstuvwxyz'') c of
        Some l \<Rightarrow> l
      | None \<Rightarrow> c)"

definition toLower :: "string \<Rightarrow> string" where
  "toLower s = map toLower_char s"

definition endsWith :: "string \<Rightarrow> string \<Rightarrow> bool" where
  "endsWith s suffix =
     (length suffix \<le> length s \<and> drop (length s - length suffix) s = suffix)"

fun contains :: "string \<Rightarrow> string \<Rightarrow> bool" where
  "contains [] sub = (sub = [])"
| "contains (c # cs) sub = (take (length sub) (c # cs) = sub \<or> contains cs sub)"

definition contains_CaseInsensitive :: "string \<Rightarrow> string \<Rightarrow> bool" where
  "contains_CaseInsensitive s sub = contains (toLower s) (toLower sub)"

definition replace_char :: "char \<Rightarrow> char \<Rightarrow> string \<Rightarrow> string" where
  "replace_char before after s = map (\<lambda>c. if c = before then after else c) s"

definition isDigit :: "char \<Rightarrow> bool" where
  "isDigit c = (c \<in> set ''0123456789'')"

definition digit_value :: "char \<Rightarrow> nat" where
  "digit_value c =
     (case map_of (zip ''0123456789'' [0, 1, 2, 3, 4, 5, 6, 7, 8, 9]) c of
        Some d \<Rightarrow> d
      | None \<Rightarrow> 0)"

fun number :: "nat \<Rightarrow> string" where
  "number n =
     (if n < 10 then [''0123456789'' ! n]
      else number (n div 10) @ [''0123456789'' ! (n mod 10)])"

declare number.simps [simp del]

definition number_int :: "int \<Rightarrow> string" where
  "number_int i = (if i < 0 then ''-'' @ number (nat (- i)) else number (nat i))"

definition newline :: string where
  "newline = [CHR 0x0A]"

definition apostrophe :: string where
  "apostrophe = [CHR 0x27]"

section \<open>Table listing and the new-database test\<close>

text \<open>
  The query layer (\<open>MSqlQuery\<close>) is not among the sources at hand; what it answers is
  an input: whether the connection is there, what the table-listing statement of
  \<open>GetTables\<close> answers for a list of engines, what \<open>SELECT VERSION()\<close> answers
  (\<open>None\<close> when \<open>exec\<close> or \<open>next\<close> fails), and which other statements execute.
\<close>

record database =
  isConnected :: bool
  list_tables :: "string list \<Rightarrow> string list option"
  select_version :: "string option"
  exec_ok :: "string \<Rightarrow> bool"

definition GetTables :: "database \<Rightarrow> string list \<Rightarrow> string list" where
  "GetTables db engines =
     (if \<not> isConnected db then []
      else case list_tables db engines of None \<Rightarrow> [] | Some names \<Rightarrow> names)"

definition IsNewDatabase :: "database \<Rightarrow> bool" where
  "IsNewDatabase db =
     (let tables = GetTables db [];
          sz = length tables
      in ((sz = 1 \<and> endsWith (tables ! 0) ''.`schemalock`'') \<or> sz = 0))"

section \<open>Reducing the rows of CHECK TABLE and REPAIR TABLE\<close>

record status_row =
  Table :: string
  Msg_type :: string
  Msg_text :: string

text \<open>The loop variables of \<open>CheckRepairStatus\<close>: \<open>(tables, table, previous_table, ok)\<close>.\<close>

type_synonym crs_state = "string list \<times> string \<times> string \<times> bool"

definition crs_body :: "crs_state \<Rightarrow> status_row \<Rightarrow> crs_state" where
  "crs_body st row =
     (case st of (tables, table0, previous_table, ok) \<Rightarrow>
        let table = Table row;
            type = Msg_type row;
            text = Msg_text row;
            (tables, ok, previous_table) =
               (if table \<noteq> previous_table
                then (let (tables, ok) =
                            (if \<not> ok then (tables @ [previous_table], True) else (tables, ok))
                      in (tables, ok, table))
                else (tables, ok, previous_table));
            ok = (if ''status'' = toLower type \<and> ''ok'' = toLower text then True
                  else if ''error'' = toLower type \<or>
                          (''status'' = toLower type \<and> ''ok'' \<noteq> toLower text) then False
                  else ok)
        in (tables, table, previous_table, ok))"

definition CheckRepairStatus :: "status_row list \<Rightarrow> string list" where
  "CheckRepairStatus rows =
     (case foldl crs_body ([], [], [], True) rows of
        (tables, table, previous_table, ok) \<Rightarrow>
          if \<not> ok then tables @ [table] else tables)"

subsection \<open>The reduction in the words of the specification\<close>

definition is_status_ok :: "status_row \<Rightarrow> bool" where
  "is_status_ok row =
     (toLower (Msg_type row) = ''status'' \<and> toLower (Msg_text row) = ''ok'')"

definition is_applicable :: "status_row \<Rightarrow> bool" where
  "is_applicable row =
     (toLower (Msg_type row) = ''error'' \<or> toLower (Msg_type row) = ''status'')"

text \<open>
  A table is left not-OK when its last row of type error or status exists and is not
  a status row saying OK.
\<close>

definition final_not_ok :: "status_row list \<Rightarrow> bool" where
  "final_not_ok rows =
     (case rev (filter is_applicable rows) of
        [] \<Rightarrow> False
      | row # _ \<Rightarrow> \<not> is_status_ok row)"

definition rows_of :: "string \<Rightarrow> status_row list \<Rightarrow> status_row list" where
  "rows_of t rows = filter (\<lambda>row. Table row = t) rows"

text \<open>The rows of one table are contiguous: no table name heads two separate runs.\<close>

definition rows_contiguous :: "status_row list \<Rightarrow> bool" where
  "rows_contiguous rows = distinct (remdups_adj (map Table rows))"

definition verdict :: "bool \<Rightarrow> status_row \<Rightarrow> bool" where
  "verdict ok row =
     (if is_status_ok row then True else if is_applicable row then False else ok)"

text \<open>
  Taking \<open>row\<close> out from between \<open>xs\<close> and \<open>ys\<close> joins two runs of one table that
  \<open>row\<close>, a row of another table, kept apart.
\<close>

definition joins_runs :: "status_row list \<Rightarrow> status_row \<Rightarrow> status_row list \<Rightarrow> bool" where
  "joins_runs xs row ys =
     (xs \<noteq> [] \<and> ys \<noteq> [] \<and> Table (last xs) = Table (hd ys) \<and> Table row \<noteq> Table (last xs))"

section \<open>The settings store\<close>

text \<open>
  Modelled from the spec: the key-value settings store behind \<open>gCoreContext\<close>, which
  is not among the sources at hand. It gets and sets string settings, gets integer
  settings (their numeric reading is a second map), gives the default for a missing
  key, and reports the connection parameters.
\<close>

record DatabaseParams =
  dbHostName :: string
  dbPort :: int
  dbUserName :: string
  dbPassword :: string
  dbName :: string

record core_context =
  settings :: "string \<rightharpoonup> string"
  num_settings :: "string \<rightharpoonup> int"
  databaseParams :: DatabaseParams

definition GetSetting :: "core_context \<Rightarrow> string \<Rightarrow> string \<Rightarrow> string" where
  "GetSetting ctx key defaultval =
     (case settings ctx key of None \<Rightarrow> defaultval | Some v \<Rightarrow> v)"

definition GetNumSetting :: "core_context \<Rightarrow> string \<Rightarrow> int \<Rightarrow> int" where
  "GetNumSetting ctx key defaultval =
     (case num_settings ctx key of None \<Rightarrow> defaultval | Some v \<Rightarrow> v)"

definition SaveSettingOnHost :: "string \<Rightarrow> string \<Rightarrow> core_context \<Rightarrow> core_context" where
  "SaveSettingOnHost key newValue ctx = ctx\<lparr>settings := (settings ctx)(key \<mapsto> newValue)\<rparr>"

section \<open>The version of the database server\<close>

text \<open>
  A C++ \<open>int\<close> is a 32-bit word read in two's complement by \<open>sint\<close>; subtraction
  wraps around where C++ leaves the overflow undefined.
\<close>

type_synonym int32 = "32 word"

definition kUnknownVersionNumber :: int32 where
  "kUnknownVersionNumber = word_of_int (- 2147483648)"

record DBUtil =
  m_versionString :: string
  m_versionMajor :: int32
  m_versionMinor :: int32
  m_versionPoint :: int32

definition DBUtil_new :: DBUtil where
  "DBUtil_new =
     \<lparr>m_versionString = [], m_versionMajor = - 1, m_versionMinor = - 1,
      m_versionPoint = - 1\<rparr>"

definition QueryDBMSVersion :: "core_context \<Rightarrow> database \<Rightarrow> DBUtil \<Rightarrow> bool \<times> DBUtil" where
  "QueryDBMSVersion ctx db this =
     (let dbmsVersion = GetSetting ctx ''DBMSVersionOverride'' [];
          dbmsVersion =
            (if dbmsVersion = []
             then (case select_version db of None \<Rightarrow> [] | Some v \<Rightarrow> v)
             else dbmsVersion);
          this = this\<lparr>m_versionString := dbmsVersion\<rparr>
      in (m_versionString this \<noteq> [], this))"

definition GetDBMSVersion :: "core_context \<Rightarrow> database \<Rightarrow> DBUtil \<Rightarrow> string \<times> DBUtil" where
  "GetDBMSVersion ctx db this =
     (let this = (if m_versionString this = [] then snd (QueryDBMSVersion ctx db this) else this)
      in (m_versionString this, this))"

text \<open>
  \<open>QRegExp("(\\d+)").indexIn(str, pos)\<close>: the index of the first digit at or after
  \<open>pos\<close>; the match is the longest run of digits from there.
\<close>

fun first_digit :: "string \<Rightarrow> nat option" where
  "first_digit [] = None"
| "first_digit (c # cs) = (if isDigit c then Some 0 else map_option Suc (first_digit cs))"

definition indexIn :: "string \<Rightarrow> nat \<Rightarrow> nat option" where
  "indexIn str pos =
     (if length str < pos then None
      else map_option (\<lambda>k. pos + k) (first_digit (drop pos str)))"

definition cap :: "string \<Rightarrow> nat \<Rightarrow> string" where
  "cap str idx = takeWhile isDigit (drop idx str)"

text \<open>
  \<open>QString::toInt(&ok, 10)\<close> on a run of digits: the value, or 0 with \<open>ok = false\<close> when
  it does not fit an \<open>int\<close>.
\<close>

definition toInt :: "string \<Rightarrow> int32 \<times> bool" where
  "toInt section =
     (let n = foldl (\<lambda>a c. 10 * a + digit_value c) 0 section
      in if n \<le> 2147483647 then (of_nat n, True) else (0, False))"

function ParseDBMSVersion_loop :: "string \<Rightarrow> nat \<Rightarrow> nat \<Rightarrow> int32 list \<Rightarrow> int32 list" where
  "ParseDBMSVersion_loop str pos i version =
     (if i < 3
      then (case indexIn str pos of
              None \<Rightarrow> version
            | Some idx \<Rightarrow>
                let section = cap str idx;
                    pos = idx + length section;
                    (n, ok) = toInt section;
                    version = version[i := n];
                    version = (if \<not> ok then version[i := - 1] else version)
                in ParseDBMSVersion_loop str pos (i + 1) version)
      else version)"
  by pat_completeness auto
termination
  by (relation "measure (\<lambda>(str, pos, i, version). 3 - i)") auto

declare ParseDBMSVersion_loop.simps [simp del]

definition ParseDBMSVersion :: "core_context \<Rightarrow> database \<Rightarrow> DBUtil \<Rightarrow> bool \<times> DBUtil" where
  "ParseDBMSVersion ctx db this =
     (let (queried, this) =
            (if m_versionString this = [] then QueryDBMSVersion ctx db this else (True, this))
      in if \<not> queried then (False, this)
         else let version = ParseDBMSVersion_loop (m_versionString this) 0 0 [- 1, - 1, - 1];
                  this = this\<lparr>m_versionMajor := version ! 0,
                              m_versionMinor := version ! 1,
                              m_versionPoint := version ! 2\<rparr>
              in (- 1 < sint (m_versionMajor this), this))"

function CompareDBMSVersion_loop :: "int32 list \<Rightarrow> int32 list \<Rightarrow> nat \<Rightarrow> int32 \<Rightarrow> int32" where
  "CompareDBMSVersion_loop version compareto i result =
     (if i < 3 \<and> result = 0
      then CompareDBMSVersion_loop version compareto (i + 1)
             (if - 1 < sint (version ! i) \<or> compareto ! i \<noteq> 0
              then version ! i - compareto ! i
              else result)
      else result)"
  by pat_completeness auto
termination
  by (relation "measure (\<lambda>(version, compareto, i, result). 3 - i)") auto

declare CompareDBMSVersion_loop.simps [simp del]

definition CompareDBMSVersion ::
  "core_context \<Rightarrow> database \<Rightarrow> DBUtil \<Rightarrow> int32 \<Rightarrow> int32 \<Rightarrow> int32 \<Rightarrow> int32 \<times> DBUtil" where
  "CompareDBMSVersion ctx db this major minor point =
     (let (parsed, this) =
            (if sint (m_versionMajor this) < 0 then ParseDBMSVersion ctx db this
             else (True, this))
      in if \<not> parsed then (kUnknownVersionNumber, this)
         else let result = 0;
                  version = [m_versionMajor this, m_versionMinor this, m_versionPoint this];
                  compareto = [major, minor, point]
              in (CompareDBMSVersion_loop version compareto 0 result, this))"

subsection \<open>Parsing and comparing in the words of the specification\<close>

text \<open>The separate groups of consecutive digits of a string, left to right.\<close>

function digit_groups :: "string \<Rightarrow> string list" where
  "digit_groups [] = []"
| "digit_groups (c # cs) =
     (if isDigit c
      then takeWhile isDigit (c # cs) # digit_groups (dropWhile isDigit cs)
      else digit_groups cs)"
  by pat_completeness auto
termination
  by (relation "measure length") (auto simp: length_dropWhile_le less_Suc_eq_le)

text \<open>
  A group becomes its number; a group whose number does not fit becomes unknown, and
  so does a component with no group.
\<close>

definition component_of :: "string list \<Rightarrow> nat \<Rightarrow> int32" where
  "component_of groups k =
     (if k < length groups
      then (if snd (toInt (groups ! k)) then fst (toInt (groups ! k)) else - 1)
      else - 1)"

definition parsed_version :: "string \<Rightarrow> int32 \<times> int32 \<times> int32" where
  "parsed_version str =
     (let groups = digit_groups str
      in (component_of groups 0, component_of groups 1, component_of groups 2))"

definition stored_version :: "DBUtil \<Rightarrow> int32 \<times> int32 \<times> int32" where
  "stored_version this = (m_versionMajor this, m_versionMinor this, m_versionPoint this)"

text \<open>The difference of two \<open>int\<close> values, as an \<open>int\<close>.\<close>

definition signed_difference :: "int32 \<Rightarrow> int32 \<Rightarrow> int32" where
  "signed_difference a b = word_of_int (sint a - sint b)"

text \<open>
  Walk the pairs of a probed and a requested component in order; skip a pair whose
  probed component is unknown and whose requested value is 0; answer the difference
  of the first pair that differs, and 0 when none does.
\<close>

fun compare_components :: "(int32 \<times> int32) list \<Rightarrow> int32" where
  "compare_components [] = 0"
| "compare_components ((probed, requested) # rest) =
     (if sint probed < 0 \<and> requested = 0 then compare_components rest
      else if probed \<noteq> requested then signed_difference probed requested
      else compare_components rest)"

text \<open>
  The objects a program can hold: a new one, and what the public operations
  \<open>GetDBMSVersion\<close> and \<open>CompareDBMSVersion\<close> make of one, whatever the settings and the
  server answer at each call.
\<close>

definition unknown_version :: "int32 \<times> int32 \<times> int32" where
  "unknown_version = (- 1, - 1, - 1)"

inductive reachable :: "DBUtil \<Rightarrow> bool" where
  reachable_new: "reachable DBUtil_new"
| reachable_Get: "reachable this \<Longrightarrow> reachable (snd (GetDBMSVersion ctx db this))"
| reachable_Compare:
    "reachable this \<Longrightarrow> reachable (snd (CompareDBMSVersion ctx db this major minor point))"

section \<open>The backup-in-progress test\<close>

text \<open>
  A \<open>QDateTime\<close> is a number of seconds. \<open>QDateTime::fromString(_, Qt::ISODate)\<close> and
  the current time are inputs of the model.
\<close>

definition secsTo :: "int \<Rightarrow> int \<Rightarrow> int" where
  "secsTo t other = other - t"

definition IsBackupInProgress :: "core_context \<Rightarrow> (string \<Rightarrow> int) \<Rightarrow> int \<Rightarrow> bool" where
  "IsBackupInProgress ctx fromString currentDateTime =
     (let backupStartTimeStr = GetSetting ctx ''BackupDBLastRunStart'' [];
          backupEndTimeStr = GetSetting ctx ''BackupDBLastRunEnd'' []
      in if backupStartTimeStr = [] then False
         else let backupStartTimeStr = replace_char CHR '' '' CHR ''T'' backupStartTimeStr;
                  backupStartTime = fromString backupStartTimeStr
              in if backupEndTimeStr = []
                 then (if secsTo backupStartTime currentDateTime < 600 then True else False)
                 else let backupEndTimeStr = replace_char CHR '' '' CHR ''T'' backupEndTimeStr;
                          backupEndTime = fromString backupEndTimeStr
                      in if backupStartTime \<le> backupEndTime then False
                         else if 600 < secsTo backupStartTime currentDateTime then False
                         else True)"

section \<open>Backing up the database\<close>

text \<open>
  Modelled from the spec: the outcomes of a backup (completed, failed, disabled, empty
  store) under the names \<open>BackupDB\<close> returns, and the exit status of success, which is
  zero. The enumeration \<open>MythDBBackupStatus\<close> and \<open>GENERIC_EXIT_OK\<close> are declared in
  headers that are not among the sources at hand.
\<close>

datatype MythDBBackupStatus =
    kDB_Backup_Failed
  | kDB_Backup_Completed
  | kDB_Backup_Empty_DB
  | kDB_Backup_Disabled

definition GENERIC_EXIT_OK :: nat where
  "GENERIC_EXIT_OK = 0"

text \<open>
  What a backup changes: the settings, the configuration files it has written and not
  yet removed, the rows of the housekeeping table, the clock, and the record of the
  files created, the commands run and the files unlinked, in the order they happened.
\<close>

datatype sys_event = CreateFile string string | System string | Unlink string

record world =
  gCoreContext :: core_context
  conf_files :: "string \<rightharpoonup> string"
  events :: "sys_event list"
  housekeeping :: "(string \<times> int) list"
  clock :: int

text \<open>
  What a backup only reads, all of it input: the build flag, the connection, the
  directories and files there are, the storage group, the name \<open>createTempFile\<close>
  picks at a moment (the number of events so far), whether \<open>fopen\<close> succeeds on a
  path, the exit status and the running time of a command, the listing of a directory
  under a name filter, and the formatting of a time.
\<close>

record host =
  USING_MINGW :: bool
  connection :: database
  ShareDir :: string
  file_exists :: "string \<Rightarrow> bool"
  dir_exists :: "string \<Rightarrow> bool"
  sg_dirList :: "string list"
  sg_FindNextDirMostFree :: "string option"
  createTempFile :: "string \<Rightarrow> nat \<Rightarrow> string"
  fopen_ok :: "string \<Rightarrow> bool"
  exit_status :: "string \<Rightarrow> nat"
  running_time :: "string \<Rightarrow> int"
  dir_entries :: "string \<Rightarrow> string \<Rightarrow> string list"
  toString :: "int \<Rightarrow> string \<Rightarrow> string"

definition myth_system :: "host \<Rightarrow> string \<Rightarrow> world \<Rightarrow> nat \<times> world" where
  "myth_system h command w =
     (exit_status h command,
      w\<lparr>events := events w @ [System command], clock := clock w + running_time h command\<rparr>)"

definition unlink :: "string \<Rightarrow> world \<Rightarrow> world" where
  "unlink path w =
     w\<lparr>conf_files := (conf_files w)(path := None), events := events w @ [Unlink path]\<rparr>"

definition CreateBackupFilename :: "host \<Rightarrow> world \<Rightarrow> string \<Rightarrow> string \<Rightarrow> string" where
  "CreateBackupFilename h w prefix extension =
     (let now = clock w;
          time = toString h now ''yyyyMMddhhmmss''
      in prefix @ ''-'' @ time @ extension)"

definition GetBackupDirectory :: "host \<Rightarrow> string" where
  "GetBackupDirectory h =
     (let directory = None;
          dirList = sg_dirList h;
          directory =
            (if dirList \<noteq> []
             then (let directory = sg_FindNextDirMostFree h
                   in if \<not> dir_exists h (case directory of None \<Rightarrow> [] | Some d \<Rightarrow> d)
                      then None else directory)
             else directory)
      in case directory of None \<Rightarrow> ''/tmp'' | Some d \<Rightarrow> d)"

definition CreateTemporaryDBConf :: "host \<Rightarrow> string \<Rightarrow> world \<Rightarrow> bool \<times> string \<times> world" where
  "CreateTemporaryDBConf h privateinfo w =
     (let ok = True;
          filename = createTempFile h ''/tmp/mythtv_db_backup_conf_XXXXXX'' (length (events w))
      in if \<not> fopen_ok h filename then (False, [], w)
         else (ok, filename,
               w\<lparr>conf_files := (conf_files w)(filename \<mapsto> privateinfo),
                  events := events w @ [CreateFile filename privateinfo]\<rparr>))"

text \<open>The text of the configuration file for the script, one \<open>name=value\<close> a line.\<close>

definition script_privateinfo ::
  "DatabaseParams \<Rightarrow> string \<Rightarrow> string \<Rightarrow> string \<Rightarrow> string \<Rightarrow> string" where
  "script_privateinfo dbParams dbSchemaVer backupDirectory backupFilename rotation =
     ''DBHostName='' @ dbHostName dbParams @ newline @
     ''DBPort='' @ number_int (dbPort dbParams) @ newline @
     ''DBUserName='' @ dbUserName dbParams @ newline @
     ''DBPassword='' @ dbPassword dbParams @ newline @
     ''DBName='' @ dbName dbParams @ newline @
     ''DBSchemaVer='' @ dbSchemaVer @ newline @
     ''DBBackupDirectory='' @ backupDirectory @ newline @
     ''DBBackupFilename='' @ backupFilename @ newline @
     rotation @ newline"

text \<open>The text of the configuration file for \<open>mysqldump\<close>, and its command line.\<close>

definition mysqldump_privateinfo :: "DatabaseParams \<Rightarrow> string" where
  "mysqldump_privateinfo dbParams =
     ''[client]'' @ newline @ ''password='' @ dbPassword dbParams @ newline @
     ''[mysqldump]'' @ newline @ ''password='' @ dbPassword dbParams @ newline"

definition mysqldump_command ::
  "string \<Rightarrow> DatabaseParams \<Rightarrow> string \<Rightarrow> string \<Rightarrow> string" where
  "mysqldump_command tempExtraConfFile dbParams portArg backupPathname =
     ''mysqldump --defaults-extra-file='' @ apostrophe @ tempExtraConfFile @ apostrophe @
     '' --host='' @ apostrophe @ dbHostName dbParams @ apostrophe @ portArg @
     '' --user='' @ apostrophe @ dbUserName dbParams @ apostrophe @
     '' --add-drop-table --add-locks'' @
     '' --allow-keywords --complete-insert'' @
     '' --extended-insert --lock-tables --no-create-db --quick '' @
     apostrophe @ dbName dbParams @ apostrophe @ '' > '' @
     apostrophe @ backupPathname @ apostrophe @ '' 2>/dev/null''"

text \<open>\<open>DoBackup(const QString&, QString&)\<close>: the backup by the script.\<close>

definition DoBackup_script ::
  "host \<Rightarrow> string \<Rightarrow> string \<Rightarrow> world \<Rightarrow> bool \<times> string \<times> world" where
  "DoBackup_script h backupScript filename w =
     (let dbParams = databaseParams (gCoreContext w);
          dbSchemaVer = GetSetting (gCoreContext w) ''DBSchemaVer'' [];
          backupDirectory = GetBackupDirectory h;
          backupFilename =
            CreateBackupFilename h w (dbName dbParams @ ''-'' @ dbSchemaVer) ''.sql'';
          scriptArgs = GetSetting (gCoreContext w) ''BackupDBScriptArgs'' [];
          rotate = ''rotate=-1'';
          (scriptArgs, rotate) =
            (if scriptArgs \<noteq> []
             then (let scriptArgs = '' '' @ scriptArgs
                   in (scriptArgs,
                       if contains_CaseInsensitive scriptArgs ''rotate'' then [] else rotate))
             else (scriptArgs, rotate));
          privateinfo =
            script_privateinfo dbParams dbSchemaVer backupDirectory backupFilename rotate;
          (hastemp, tempDatabaseConfFile, w) = CreateTemporaryDBConf h privateinfo w;
          command = backupScript @ scriptArgs @ '' '' @ tempDatabaseConfFile;
          (status, w) = myth_system h command w;
          w = (if hastemp then unlink tempDatabaseConfFile w else w)
      in if status \<noteq> GENERIC_EXIT_OK then (False, ''__FAILED__'', w)
         else let entries = dir_entries h backupDirectory (backupFilename @ ''*'');
                  numfiles = length entries;
                  filename =
                    (if numfiles < 1 then [] else backupDirectory @ ''/'' @ entries ! 0)
              in (True, filename, w))"

text \<open>
  \<open>DoBackup(QString&)\<close>: the backup by \<open>mysqldump\<close>, and before it the step of that
  function that compresses the dump when a compressor was found.
\<close>

definition compress_backup :: "host \<Rightarrow> string \<Rightarrow> string \<Rightarrow> world \<Rightarrow> string \<times> world" where
  "compress_backup h compressCommand backupPathname w =
     (if compressCommand \<noteq> []
      then (let compressCommand = compressCommand @ '' '' @ backupPathname;
                (status, w) = myth_system h compressCommand w
            in if status \<noteq> GENERIC_EXIT_OK then (backupPathname, w)
               else (backupPathname @ ''.gz'', w))
      else (backupPathname, w))"

definition DoBackup_internal :: "host \<Rightarrow> string \<Rightarrow> world \<Rightarrow> bool \<times> string \<times> world" where
  "DoBackup_internal h filename w =
     (let dbParams = databaseParams (gCoreContext w);
          dbSchemaVer = GetSetting (gCoreContext w) ''DBSchemaVer'' [];
          backupDirectory = GetBackupDirectory h;
          extension = ''.sql'';
          compressCommand =
            (if file_exists h ''/bin/gzip'' then ''/bin/gzip''
             else if file_exists h ''/usr/bin/gzip'' then ''/usr/bin/gzip''
             else []);
          backupFilename =
            CreateBackupFilename h w (dbName dbParams @ ''-'' @ dbSchemaVer) extension;
          backupPathname = backupDirectory @ ''/'' @ backupFilename;
          privateinfo = mysqldump_privateinfo dbParams;
          (staged, tempExtraConfFile, w) = CreateTemporaryDBConf h privateinfo w
      in if \<not> staged then (False, filename, w)
         else let portArg =
                    (if 0 < dbPort dbParams
                     then '' --port='' @ apostrophe @ number_int (dbPort dbParams) @ apostrophe
                     else []);
                  command =
                    mysqldump_command tempExtraConfFile dbParams portArg backupPathname;
                  (status, w) = myth_system h command w;
                  w = unlink tempExtraConfFile w
              in if status \<noteq> GENERIC_EXIT_OK then (False, ''__FAILED__'', w)
                 else let (backupPathname, w) =
                            compress_backup h compressCommand backupPathname w
                      in (True, backupPathname, w))"

text \<open>
  The two attempts of \<open>BackupDB\<close>, by the script when there is one and then by
  \<open>mysqldump\<close> when there is no result yet, and its update of the housekeeping table.
\<close>

definition BackupDB_attempts ::
  "host \<Rightarrow> string \<Rightarrow> string \<Rightarrow> world \<Rightarrow> bool \<times> string \<times> world" where
  "BackupDB_attempts h backupScript filename w =
     (let result = False;
          (result, filename, w) =
            (if backupScript \<noteq> [] then DoBackup_script h backupScript filename w
             else (result, filename, w));
          (result, filename, w) =
            (if \<not> result then DoBackup_internal h filename w
             else (result, filename, w))
      in (result, filename, w))"

definition BackupDB_housekeeping :: "host \<Rightarrow> world \<Rightarrow> world" where
  "BackupDB_housekeeping h w =
     (if isConnected (connection h)
      then (let dbTag = ''BackupDB'';
                w = (if exec_ok (connection h) ''DELETE FROM housekeeping WHERE tag = :TAG ;''
                     then w\<lparr>housekeeping :=
                              filter (\<lambda>(tag, lastrun). tag \<noteq> dbTag) (housekeeping w)\<rparr>
                     else w);
                w = (if exec_ok (connection h)
                          ''INSERT INTO housekeeping(tag,lastrun) values(:TAG ,now()) ;''
                     then w\<lparr>housekeeping := housekeeping w @ [(dbTag, clock w)]\<rparr>
                     else w)
            in w)
      else w)"

definition BackupDB :: "host \<Rightarrow> world \<Rightarrow> MythDBBackupStatus \<times> string \<times> world" where
  "BackupDB h w =
     (let filename = []
      in if USING_MINGW h then (kDB_Backup_Disabled, filename, w)
         else if GetNumSetting (gCoreContext w) ''DisableAutomaticBackup'' 0 \<noteq> 0
         then (kDB_Backup_Disabled, filename, w)
         else if IsNewDatabase (connection h) then (kDB_Backup_Empty_DB, filename, w)
         else let backupScript = ShareDir h @ ''mythconverg_backup.pl'';
                  backupScript = GetSetting (gCoreContext w) ''DatabaseBackupScript'' backupScript;
                  backupScript = (if \<not> file_exists h backupScript then [] else backupScript);
                  w = w\<lparr>gCoreContext :=
                          SaveSettingOnHost ''BackupDBLastRunStart''
                            (toString h (clock w) ''yyyy-MM-dd hh:mm:ss'') (gCoreContext w)\<rparr>;
                  (result, filename, w) = BackupDB_attempts h backupScript filename w;
                  w = w\<lparr>gCoreContext :=
                          SaveSettingOnHost ''BackupDBLastRunEnd''
                            (toString h (clock w) ''yyyy-MM-dd hh:mm:ss'') (gCoreContext w)\<rparr>;
                  w = BackupDB_housekeeping h w
              in if result then (kDB_Backup_Completed, filename, w)
                 else (kDB_Backup_Failed, filename, w))"

section \<open>Concrete inputs\<close>

definition example_context :: core_context where
  "example_context =
     \<lparr>settings = Map.empty, num_settings = Map.empty,
      databaseParams =
        \<lparr>dbHostName = ''localhost'', dbPort = 3306, dbUserName = ''mythtv'',
         dbPassword = ''secret'', dbName = ''mythconverg''\<rparr>\<rparr>"

text \<open>A connected server with the given answer to \<open>SELECT VERSION()\<close> and the given tables.\<close>

definition example_database :: "string option \<Rightarrow> string list \<Rightarrow> database" where
  "example_database v names =
     \<lparr>isConnected = True, list_tables = (\<lambda>engines. Some names), select_version = v,
      exec_ok = (\<lambda>statement. True)\<rparr>"

text \<open>
  Three moments of one day, in seconds since its midnight, as \<open>fromString\<close> reads
  them; any other text is invalid and reads as 0.
\<close>

definition example_fromString :: "string \<Rightarrow> int" where
  "example_fromString s =
     (case map_of
        [(''2011-06-01T11:58:20'', 43100),
         (''2011-06-01T12:00:00'', 43200),
         (''2011-06-01T12:01:00'', 43260)] s of
        Some t \<Rightarrow> t
      | None \<Rightarrow> 0)"

text \<open>
  A host with tables in its database, where no backup script is installed and
  configuration files can (\<open>True\<close>) or cannot be opened, and every command exits with
  the given status.
\<close>

definition example_host :: "bool \<Rightarrow> nat \<Rightarrow> host" where
  "example_host can_open status =
     \<lparr>USING_MINGW = False,
      connection = example_database (Some ''5.1.30-log'') [''`mythconverg`.`settings`''],
      ShareDir = ''/usr/share/mythtv/'',
      file_exists = (\<lambda>path. False),
      dir_exists = (\<lambda>path. True),
      sg_dirList = [],
      sg_FindNextDirMostFree = None,
      createTempFile = (\<lambda>name_template moment. ''/tmp/mythtv_db_backup_conf_a1b2c3''),
      fopen_ok = (\<lambda>path. can_open),
      exit_status = (\<lambda>command. status),
      running_time = (\<lambda>command. 5),
      dir_entries = (\<lambda>directory name_filter. []),
      toString = (\<lambda>time format. number_int time)\<rparr>"

definition example_world :: world where
  "example_world =
     \<lparr>gCoreContext = example_context, conf_files = Map.empty, events = [], housekeeping = [],
      clock = 43200\<rparr>"

section \<open>Properties of the new-database test\<close>

text \<open>
  C6. \<open>IsNewDatabase\<close> is true exactly when the table list is empty or holds one table
  whose name ends with the schema-lock marker; it is false for a list of two or more
  tables and for a single table that is not the marker. The list naming only
  \<open>`db`.`schemalock`\<close> is a new database.
\<close>

theorem IsNewDatabase_iff:
  "IsNewDatabase db =
     (GetTables db [] = [] \<or>
      (\<exists>t. GetTables db [] = [t] \<and> endsWith t ''.`schemalock`'')) \<and>
   IsNewDatabase db =
     (case GetTables db [] of
        [] \<Rightarrow> True
      | [t] \<Rightarrow> endsWith t ''.`schemalock`''
      | _ \<Rightarrow> False) \<and>
   endsWith ''`db`.`schemalock`'' ''.`schemalock`''"
proof (cases "GetTables db []")
  case Nil
  then show ?thesis
    by (simp add: IsNewDatabase_def endsWith_def)
next
  case (Cons t rest)
  show ?thesis
  proof (cases rest)
    case Nil
    with Cons show ?thesis
      by (simp add: IsNewDatabase_def endsWith_def)
  next
    case (Cons u more)
    with \<open>GetTables db [] = t # rest\<close> show ?thesis
      by (simp add: IsNewDatabase_def endsWith_def)
  qed
qed

section \<open>Properties of the reduction\<close>

lemma foldl_verdict_final:
  "foldl verdict ok rows =
     (case rev (filter is_applicable rows) of [] \<Rightarrow> ok | row # _ \<Rightarrow> is_status_ok row)"
proof (induction rows rule: rev_induct)
  case Nil
  then show ?case by simp
next
  case (snoc x xs)
  then show ?case
    by (auto simp: verdict_def is_applicable_def is_status_ok_def split: list.splits)
qed

lemma final_not_ok_verdict: "final_not_ok rows = (\<not> foldl verdict True rows)"
  by (simp add: foldl_verdict_final final_not_ok_def split: list.splits)

lemma crs_body_eq:
  "crs_body (tables, table0, previous_table, ok) row =
     (if Table row \<noteq> previous_table
      then ((if ok then tables else tables @ [previous_table]), Table row, Table row, verdict True row)
      else (tables, Table row, previous_table, verdict ok row))"
  by (auto simp: crs_body_def Let_def verdict_def is_status_ok_def is_applicable_def)

lemma verdict_not_applicable: "\<not> is_applicable row \<Longrightarrow> verdict ok row = ok"
  by (auto simp: verdict_def is_applicable_def is_status_ok_def)

lemma crs_state_after:
  assumes "foldl crs_body ([], [], [], True) xs = (tables, table0, prev, ok)"
  shows "(xs = [] \<and> tables = [] \<and> table0 = [] \<and> prev = [] \<and> ok) \<or>
         (xs \<noteq> [] \<and> table0 = Table (last xs) \<and> prev = Table (last xs))"
proof (cases xs rule: rev_cases)
  case Nil
  with assms show ?thesis by simp
next
  case (snoc ys y)
  obtain a b c d where s: "foldl crs_body ([], [], [], True) ys = (a, b, c, d)"
    by (metis prod_cases4)
  show ?thesis
    using assms snoc s by (auto simp: crs_body_eq split: if_splits)
qed

lemma crs_body_skip:
  assumes na: "\<not> is_applicable row"
      and st: "foldl crs_body ([], [], [], True) xs = st"
      and ns: "xs \<noteq> [] \<Longrightarrow> Table (last xs) = Table y \<Longrightarrow> Table row = Table y"
  shows "crs_body (crs_body st row) y = crs_body st y"
proof -
  obtain tables table0 prev ok where s: "st = (tables, table0, prev, ok)"
    by (metis prod_cases4)
  from crs_state_after[OF st[unfolded s]] ns
  show ?thesis
    unfolding s
    by (auto simp: crs_body_eq verdict_not_applicable[OF na])
qed

lemma crs_final_skip:
  assumes na: "\<not> is_applicable row"
      and st: "foldl crs_body ([], [], [], True) xs = st"
  shows "(case crs_body st row of (tables, table0, prev, ok) \<Rightarrow>
            if \<not> ok then tables @ [table0] else tables) =
         (case st of (tables, table0, prev, ok) \<Rightarrow>
            if \<not> ok then tables @ [table0] else tables)"
proof -
  obtain tables table0 prev ok where s: "st = (tables, table0, prev, ok)"
    by (metis prod_cases4)
  from crs_state_after[OF st[unfolded s]]
  show ?thesis
    unfolding s
    by (auto simp: crs_body_eq verdict_not_applicable[OF na])
qed

lemma CheckRepairStatus_skip:
  assumes "\<not> is_applicable row" and "\<not> joins_runs xs row ys"
  shows "CheckRepairStatus (xs @ row # ys) = CheckRepairStatus (xs @ ys)"
proof (cases ys)
  case Nil
  then show ?thesis
    using crs_final_skip[OF assms(1) refl, of xs]
    by (simp add: CheckRepairStatus_def)
next
  case (Cons y ys')
  have "Table row = Table y" if "xs \<noteq> []" "Table (last xs) = Table y"
    using assms(2) that Cons by (auto simp: joins_runs_def)
  then have "crs_body (crs_body (foldl crs_body ([], [], [], True) xs) row) y
           = crs_body (foldl crs_body ([], [], [], True) xs) y"
    using crs_body_skip[OF assms(1) refl, of xs y] by blast
  then show ?thesis
    by (simp add: CheckRepairStatus_def Cons)
qed

lemma contiguous_not_joins:
  assumes "rows_contiguous (xs @ row # ys)"
  shows "\<not> joins_runs xs row ys"
proof
  assume j: "joins_runs xs row ys"
  then obtain xs' x y ys' where xs: "xs = xs' @ [x]" and ys: "ys = y # ys'"
    and t: "Table x = Table y" and r: "Table row \<noteq> Table x"
    unfolding joins_runs_def
    by (metis append_butlast_last_id list.collapse)
  let ?A = "map Table xs'" and ?B = "map Table ys'"
  have m: "map Table (xs @ row # ys) = ?A @ Table y # (Table row # Table y # ?B)"
    by (simp add: xs ys t)
  have "remdups_adj (map Table (xs @ row # ys))
           = remdups_adj (?A @ [Table y]) @ tl (remdups_adj (Table y # Table row # Table y # ?B))"
    unfolding m by (rule remdups_adj_append)
  also have "\<dots> = remdups_adj (?A @ [Table y]) @ Table row # remdups_adj (Table y # ?B)"
    using r t by simp
  finally have "\<not> distinct (remdups_adj (map Table (xs @ row # ys)))"
    by (auto simp del: remdups_adj.simps)
  with assms show False by (simp add: rows_contiguous_def)
qed


lemma crs_loop_contiguous:
  assumes "distinct (remdups_adj (prev # map Table rows))"
      and "\<not> ok \<Longrightarrow> table0 = prev"
  shows "(case foldl crs_body (tables, table0, prev, ok) rows of
            (tables', table', prev', ok') \<Rightarrow> if \<not> ok' then tables' @ [table'] else tables') =
         tables @ filter (\<lambda>t. \<not> foldl verdict (if t = prev then ok else True) (rows_of t rows))
                    (remdups_adj (prev # map Table rows))"
  using assms
proof (induction rows arbitrary: tables table0 prev ok)
  case Nil
  then show ?case by (auto simp: rows_of_def)
next
  case (Cons row rows)
  show ?case
  proof (cases "Table row = prev")
    case True
    have d: "distinct (remdups_adj (prev # map Table rows))"
      using Cons.prems(1) True by simp
    have t: "\<not> verdict ok row \<Longrightarrow> Table row = prev" using True by simp
    have P: "\<And>t. foldl verdict (if t = prev then ok else True) (rows_of t (row # rows))
              = foldl verdict (if t = prev then verdict ok row else True) (rows_of t rows)"
      using True by (auto simp: rows_of_def)
    show ?thesis
      using Cons.IH[OF d t, where tables=tables] True
      by (simp add: crs_body_eq P)
  next
    case False
    have d: "distinct (remdups_adj (Table row # map Table rows))"
      using Cons.prems(1) False by simp
    have notin: "prev \<notin> set (map Table rows)"
      using Cons.prems(1) False by auto
    have pe: "rows_of prev (row # rows) = []"
      using notin False by (auto simp: rows_of_def filter_empty_conv)
    have P: "\<And>t. t \<in> set (remdups_adj (Table row # map Table rows)) \<Longrightarrow>
              foldl verdict (if t = prev then ok else True) (rows_of t (row # rows))
              = foldl verdict (if t = Table row then verdict True row else True) (rows_of t rows)"
      using notin False by (auto simp: rows_of_def)
    have F: "filter (\<lambda>t. \<not> foldl verdict (if t = prev then ok else True) (rows_of t (row # rows)))
               (remdups_adj (Table row # map Table rows))
           = filter (\<lambda>t. \<not> foldl verdict (if t = Table row then verdict True row else True) (rows_of t rows))
               (remdups_adj (Table row # map Table rows))"
      by (rule filter_cong[OF refl]) (simp add: P)
    have R: "remdups_adj (prev # map Table (row # rows)) = prev # remdups_adj (Table row # map Table rows)"
      using False by simp
    show ?thesis
      using Cons.IH[OF d, where ok="verdict True row" and ?table0.0="Table row"
                     and tables="(if ok then tables else tables @ [prev])"] False
      unfolding R
      by (simp add: crs_body_eq pe F del: remdups_adj.simps)
  qed
qed

lemma CheckRepairStatus_contiguous:
  assumes "rows_contiguous rows"
  shows "CheckRepairStatus rows =
           filter (\<lambda>t. final_not_ok (rows_of t rows)) (remdups_adj (map Table rows))"
proof (cases rows)
  case Nil
  then show ?thesis by (simp add: CheckRepairStatus_def)
next
  case (Cons row rest)
  have d: "distinct (remdups_adj (Table row # map Table rest))"
    using assms Cons by (simp add: rows_contiguous_def)
  have P: "\<And>t. foldl verdict (if t = Table row then verdict True row else True) (rows_of t rest)
             = foldl verdict True (rows_of t (row # rest))"
    by (auto simp: rows_of_def)
  have step: "crs_body ([], [], [], True) row = ([], Table row, Table row, verdict True row)"
    by (simp add: crs_body_eq)
  show ?thesis
    using crs_loop_contiguous[OF d, where ok="verdict True row" and ?table0.0="Table row"
                               and tables="[]"]
    unfolding Cons CheckRepairStatus_def
    by (simp add: step P final_not_ok_verdict del: remdups_adj.simps)
qed

lemmas crs_eval =
  CheckRepairStatus_def crs_body_def Let_def toLower_def toLower_char_def

text \<open>
  C1. When the rows of each table are contiguous, \<open>CheckRepairStatus\<close> returns, in the
  order of the tables and each once, exactly the tables whose last row of type error or
  status (compared in lower case) is not a status row with text OK: an error row marks
  the table not-OK, a status row with OK marks it OK again, a status row with another
  text marks it not-OK, and a table is settled when the name changes and after the last
  row. So a lone status OK row gives no table, an error followed by status OK gives no
  table, status OK followed by an error gives the table, and an error for one table
  followed by status OK for another gives the first table.
\<close>

theorem CheckRepairStatus_reduction:
  "(rows_contiguous rows \<longrightarrow>
      CheckRepairStatus rows =
        filter (\<lambda>t. final_not_ok (rows_of t rows)) (remdups_adj (map Table rows)) \<and>
      distinct (CheckRepairStatus rows) \<and>
      set (CheckRepairStatus rows) =
        {t \<in> Table ` set rows. final_not_ok (rows_of t rows)}) \<and>
   CheckRepairStatus [\<lparr>Table = t1, Msg_type = ''status'', Msg_text = ''OK''\<rparr>] = [] \<and>
   CheckRepairStatus [\<lparr>Table = t1, Msg_type = ''error'', Msg_text = x\<rparr>,
                      \<lparr>Table = t1, Msg_type = ''status'', Msg_text = ''OK''\<rparr>] = [] \<and>
   CheckRepairStatus [\<lparr>Table = t1, Msg_type = ''status'', Msg_text = ''OK''\<rparr>,
                      \<lparr>Table = t1, Msg_type = ''error'', Msg_text = x\<rparr>] = [t1] \<and>
   (t1 \<noteq> t2 \<longrightarrow>
      CheckRepairStatus [\<lparr>Table = t1, Msg_type = ''error'', Msg_text = x\<rparr>,
                         \<lparr>Table = t2, Msg_type = ''status'', Msg_text = ''OK''\<rparr>] = [t1])"
proof -
  have general: "CheckRepairStatus rows =
        filter (\<lambda>t. final_not_ok (rows_of t rows)) (remdups_adj (map Table rows)) \<and>
      distinct (CheckRepairStatus rows) \<and>
      set (CheckRepairStatus rows) =
        {t \<in> Table ` set rows. final_not_ok (rows_of t rows)}" if c: "rows_contiguous rows"
  proof -
    have e: "CheckRepairStatus rows =
        filter (\<lambda>t. final_not_ok (rows_of t rows)) (remdups_adj (map Table rows))"
      by (rule CheckRepairStatus_contiguous[OF c])
    have d: "distinct (CheckRepairStatus rows)"
      unfolding e using c by (simp add: rows_contiguous_def)
    have s: "set (CheckRepairStatus rows) =
        {t \<in> Table ` set rows. final_not_ok (rows_of t rows)}"
      unfolding e by auto
    from e d s show ?thesis by blast
  qed
  have ex1: "CheckRepairStatus [\<lparr>Table = t1, Msg_type = ''status'', Msg_text = ''OK''\<rparr>] = []"
    by (simp add: crs_eval)
  have ex2: "CheckRepairStatus [\<lparr>Table = t1, Msg_type = ''error'', Msg_text = x\<rparr>,
                      \<lparr>Table = t1, Msg_type = ''status'', Msg_text = ''OK''\<rparr>] = []"
    by (simp add: crs_eval)
  have ex3: "CheckRepairStatus [\<lparr>Table = t1, Msg_type = ''status'', Msg_text = ''OK''\<rparr>,
                      \<lparr>Table = t1, Msg_type = ''error'', Msg_text = x\<rparr>] = [t1]"
    by (simp add: crs_eval)
  have ex4: "CheckRepairStatus [\<lparr>Table = t1, Msg_type = ''error'', Msg_text = x\<rparr>,
                         \<lparr>Table = t2, Msg_type = ''status'', Msg_text = ''OK''\<rparr>] = [t1]"
    if "t1 \<noteq> t2"
    using that by (auto simp: crs_eval)
  from general ex1 ex2 ex3 ex4 show ?thesis by blast
qed

theorem CheckRepairStatus_reduction_witness:
  "rows_contiguous
     [\<lparr>Table = ''t1'', Msg_type = ''Error'', Msg_text = ''corrupt''\<rparr>,
      \<lparr>Table = ''t1'', Msg_type = ''status'', Msg_text = ''OK''\<rparr>,
      \<lparr>Table = ''t2'', Msg_type = ''status'', Msg_text = ''ok''\<rparr>,
      \<lparr>Table = ''t2'', Msg_type = ''error'', Msg_text = ''x''\<rparr>] \<and>
   CheckRepairStatus
     [\<lparr>Table = ''t1'', Msg_type = ''Error'', Msg_text = ''corrupt''\<rparr>,
      \<lparr>Table = ''t1'', Msg_type = ''status'', Msg_text = ''OK''\<rparr>,
      \<lparr>Table = ''t2'', Msg_type = ''status'', Msg_text = ''ok''\<rparr>,
      \<lparr>Table = ''t2'', Msg_type = ''error'', Msg_text = ''x''\<rparr>] = [''t2''] \<and>
   ''t1'' \<noteq> ''t2'' \<and>
   CheckRepairStatus [\<lparr>Table = ''t1'', Msg_type = ''error'', Msg_text = ''x''\<rparr>,
                      \<lparr>Table = ''t2'', Msg_type = ''status'', Msg_text = ''OK''\<rparr>] = [''t1'']"
proof -
  let ?a = "\<lparr>Table = ''t1'', Msg_type = ''Error'', Msg_text = ''corrupt''\<rparr>"
  let ?b = "\<lparr>Table = ''t1'', Msg_type = ''status'', Msg_text = ''OK''\<rparr>"
  let ?c = "\<lparr>Table = ''t2'', Msg_type = ''status'', Msg_text = ''ok''\<rparr>"
  let ?d = "\<lparr>Table = ''t2'', Msg_type = ''error'', Msg_text = ''x''\<rparr>"
  let ?rows = "[?a, ?b, ?c, ?d]"
  have c: "rows_contiguous ?rows"
    by (simp add: rows_contiguous_def)
  have n: "''t1'' \<noteq> ''t2''" by simp
  have names: "remdups_adj (map Table ?rows) = [''t1'', ''t2'']"
    by simp
  have r1: "rows_of ''t1'' ?rows = [?a, ?b]" and r2: "rows_of ''t2'' ?rows = [?c, ?d]"
    by (simp_all add: rows_of_def)
  have ap: "is_applicable ?a" "is_applicable ?b" "is_applicable ?c" "is_applicable ?d"
    by (simp_all add: is_applicable_def toLower_def toLower_char_def)
  have ok: "is_status_ok ?b" "\<not> is_status_ok ?d"
    by (simp_all add: is_status_ok_def toLower_def toLower_char_def)
  have f1: "\<not> final_not_ok [?a, ?b]" and f2: "final_not_ok [?c, ?d]"
    using ap ok by (simp_all add: final_not_ok_def)
  have "CheckRepairStatus ?rows =
          filter (\<lambda>t. final_not_ok (rows_of t ?rows)) (remdups_adj (map Table ?rows))"
    using CheckRepairStatus_reduction[of ?rows "''t1''" "''x''" "''t2''"] c by blast
  then have s: "CheckRepairStatus ?rows = [''t2'']"
    unfolding names using f1 f2 r1 r2 by simp
  have e: "CheckRepairStatus [\<lparr>Table = ''t1'', Msg_type = ''error'', Msg_text = ''x''\<rparr>,
                      \<lparr>Table = ''t2'', Msg_type = ''status'', Msg_text = ''OK''\<rparr>] = [''t1'']"
    using CheckRepairStatus_reduction[of ?rows "''t1''" "''x''" "''t2''"] n
    by blast
  show ?thesis
    by (intro conjI c s n e)
qed

text \<open>
  C10. A row whose type, in lower case, is neither error nor status leaves the verdict
  of the table it belongs to as it was: the loop body changes neither the list nor the
  flag when the row belongs to the current table, and taking the row out of the result
  set does not change what \<open>CheckRepairStatus\<close> returns, so the row neither lists a
  table nor clears one (the row must not be all that separates two runs of one other
  table, which cannot happen when the rows of each table are contiguous).
\<close>

theorem CheckRepairStatus_other_type:
  assumes "toLower (Msg_type row) \<noteq> ''error''" and "toLower (Msg_type row) \<noteq> ''status''"
  shows "crs_body (tables, table0, Table row, ok) row = (tables, Table row, Table row, ok) \<and>
         (\<not> joins_runs xs row ys \<longrightarrow>
            CheckRepairStatus (xs @ row # ys) = CheckRepairStatus (xs @ ys)) \<and>
         (rows_contiguous (xs @ row # ys) \<longrightarrow>
            CheckRepairStatus (xs @ row # ys) = CheckRepairStatus (xs @ ys)) \<and>
         CheckRepairStatus [row] = []"
proof -
  have na: "\<not> is_applicable row"
    using assms by (simp add: is_applicable_def)
  have a: "crs_body (tables, table0, Table row, ok) row = (tables, Table row, Table row, ok)"
    by (simp add: crs_body_eq verdict_not_applicable[OF na])
  have b: "CheckRepairStatus (xs @ row # ys) = CheckRepairStatus (xs @ ys)"
    if "\<not> joins_runs xs row ys"
    using CheckRepairStatus_skip[OF na that] .
  have c: "CheckRepairStatus (xs @ row # ys) = CheckRepairStatus (xs @ ys)"
    if "rows_contiguous (xs @ row # ys)"
    using CheckRepairStatus_skip[OF na contiguous_not_joins[OF that]] .
  have "\<not> joins_runs [] row []"
    by (simp add: joins_runs_def)
  from CheckRepairStatus_skip[OF na this]
  have d: "CheckRepairStatus [row] = []"
    by (simp add: CheckRepairStatus_def)
  from a b c d show ?thesis by blast
qed

theorem CheckRepairStatus_other_type_witness:
  "toLower ''Warning'' \<noteq> ''error'' \<and> toLower ''Warning'' \<noteq> ''status'' \<and>
   \<not> joins_runs [\<lparr>Table = ''t1'', Msg_type = ''error'', Msg_text = ''x''\<rparr>]
        \<lparr>Table = ''t1'', Msg_type = ''Warning'', Msg_text = ''w''\<rparr>
        [\<lparr>Table = ''t2'', Msg_type = ''status'', Msg_text = ''OK''\<rparr>] \<and>
   rows_contiguous
     [\<lparr>Table = ''t1'', Msg_type = ''error'', Msg_text = ''x''\<rparr>,
      \<lparr>Table = ''t1'', Msg_type = ''Warning'', Msg_text = ''w''\<rparr>,
      \<lparr>Table = ''t2'', Msg_type = ''status'', Msg_text = ''OK''\<rparr>] \<and>
   CheckRepairStatus
     [\<lparr>Table = ''t1'', Msg_type = ''error'', Msg_text = ''x''\<rparr>,
      \<lparr>Table = ''t1'', Msg_type = ''Warning'', Msg_text = ''w''\<rparr>,
      \<lparr>Table = ''t2'', Msg_type = ''status'', Msg_text = ''OK''\<rparr>] =
   CheckRepairStatus
     [\<lparr>Table = ''t1'', Msg_type = ''error'', Msg_text = ''x''\<rparr>,
      \<lparr>Table = ''t2'', Msg_type = ''status'', Msg_text = ''OK''\<rparr>]"
proof -
  let ?x = "\<lparr>Table = ''t1'', Msg_type = ''error'', Msg_text = ''x''\<rparr>"
  let ?r = "\<lparr>Table = ''t1'', Msg_type = ''Warning'', Msg_text = ''w''\<rparr>"
  let ?y = "\<lparr>Table = ''t2'', Msg_type = ''status'', Msg_text = ''OK''\<rparr>"
  have h1: "toLower (Msg_type ?r) \<noteq> ''error''" and h2: "toLower (Msg_type ?r) \<noteq> ''status''"
    by (simp_all add: toLower_def toLower_char_def)
  have j: "\<not> joins_runs [?x] ?r [?y]"
    by (simp add: joins_runs_def)
  have c: "rows_contiguous ([?x] @ ?r # [?y])"
    by (simp add: rows_contiguous_def)
  show ?thesis
    using CheckRepairStatus_other_type[OF h1 h2, of _ _ _ "[?x]" "[?y]"] h1 h2 j c
    by simp
qed

section \<open>Properties of version parsing and comparison\<close>

lemma first_digit_None: "first_digit xs = None \<Longrightarrow> digit_groups xs = []"
  by (induction xs) (auto split: if_splits)

lemma first_digit_Some:
  "first_digit xs = Some k \<Longrightarrow>
     digit_groups xs =
       takeWhile isDigit (drop k xs) # digit_groups (dropWhile isDigit (drop k xs))"
  by (induction xs arbitrary: k) (auto split: if_splits)

lemma indexIn_None: "indexIn str pos = None \<Longrightarrow> digit_groups (drop pos str) = []"
  by (auto simp: indexIn_def first_digit_None split: if_splits)

lemma indexIn_Some:
  assumes "indexIn str pos = Some idx"
  shows "digit_groups (drop pos str) =
           cap str idx # digit_groups (drop (idx + length (cap str idx)) str)"
proof -
  from assms obtain k where k: "first_digit (drop pos str) = Some k" and idx: "idx = pos + k"
    by (auto simp: indexIn_def split: if_splits)
  have d: "drop k (drop pos str) = drop idx str"
    by (simp add: idx add.commute)
  have "drop (idx + length (cap str idx)) str = drop (length (takeWhile isDigit (drop idx str))) (drop idx str)"
    by (simp add: cap_def add.commute)
  also have "\<dots> = dropWhile isDigit (drop idx str)"
    by (simp add: dropWhile_eq_drop)
  finally show ?thesis
    using first_digit_Some[OF k] unfolding d by (simp add: cap_def)
qed

lemma ParseDBMSVersion_loop_stop:
  "\<not> i < 3 \<Longrightarrow> ParseDBMSVersion_loop str pos i version = version"
  by (subst ParseDBMSVersion_loop.simps) simp

lemma ParseDBMSVersion_loop_None:
  "indexIn str pos = None \<Longrightarrow> ParseDBMSVersion_loop str pos i version = version"
  by (subst ParseDBMSVersion_loop.simps) simp

lemma ParseDBMSVersion_loop_nth:
  assumes "length version = 3" and "k < 3"
  shows "ParseDBMSVersion_loop str pos i version ! k =
           (if k < i then version ! k
            else if k - i < length (digit_groups (drop pos str))
                 then component_of (digit_groups (drop pos str)) (k - i)
                 else version ! k) \<and>
         length (ParseDBMSVersion_loop str pos i version) = 3"
  using assms
proof (induction str pos i version rule: ParseDBMSVersion_loop.induct)
  case (1 str pos i version)
  show ?case
  proof (cases "i < 3")
    case False
    then show ?thesis
      using "1.prems" by (simp add: ParseDBMSVersion_loop_stop)
  next
    case True
    show ?thesis
    proof (cases "indexIn str pos")
      case None
      then show ?thesis
        using True "1.prems" indexIn_None[OF None]
        by (simp add: ParseDBMSVersion_loop_None)
    next
      case (Some idx)
      let ?sec = "cap str idx"
      let ?v = "version[i := (if snd (toInt ?sec) then fst (toInt ?sec) else - 1)]"
      have unf: "ParseDBMSVersion_loop str pos i version =
                 ParseDBMSVersion_loop str (idx + length ?sec) (i + 1) ?v"
        using True Some
        by (subst ParseDBMSVersion_loop.simps) (auto simp: Let_def split: prod.splits)
      have lv: "length ?v = 3" using "1.prems" by simp
      obtain n ok where t: "toInt ?sec = (n, ok)" by (cases "toInt ?sec")
      have ih: "ParseDBMSVersion_loop str (idx + length ?sec) (i + 1) ?v ! k =
           (if k < i + 1 then ?v ! k
            else if k - (i + 1) < length (digit_groups (drop (idx + length ?sec) str))
                 then component_of (digit_groups (drop (idx + length ?sec) str)) (k - (i + 1))
                 else ?v ! k) \<and>
         length (ParseDBMSVersion_loop str (idx + length ?sec) (i + 1) ?v) = 3"
        using "1.IH"[OF True Some refl refl t[symmetric] refl refl] lv "1.prems"(2) t
        by (auto split: if_splits)
      let ?G = "digit_groups (drop (idx + length ?sec) str)"
      consider "k < i" | "k = i" | "i < k" by linarith
      then show ?thesis
      proof cases
        case 1
        then show ?thesis
          unfolding unf indexIn_Some[OF Some] using ih by simp
      next
        case 2
        then show ?thesis
          unfolding unf indexIn_Some[OF Some] using ih True "1.prems"
          by (simp add: component_of_def)
      next
        case 3
        then have e: "k - i = Suc (k - (i + 1))" by simp
        have c: "component_of (?sec # ?G) (Suc (k - (i + 1))) = component_of ?G (k - (i + 1))"
          by (simp add: component_of_def)
        from 3 show ?thesis
          unfolding unf indexIn_Some[OF Some] e c using ih True "1.prems"
          by simp
      qed
    qed
  qed
qed

lemma ParseDBMSVersion_loop_eq:
  "ParseDBMSVersion_loop str 0 0 [- 1, - 1, - 1] =
     (case parsed_version str of (a, b, c) \<Rightarrow> [a, b, c])"
proof -
  let ?r = "ParseDBMSVersion_loop str 0 0 [- 1, - 1, - 1]"
  let ?G = "digit_groups str"
  have n: "?r ! k = component_of ?G k" if "k < 3" for k
    using ParseDBMSVersion_loop_nth[of "[- 1, - 1, - 1]" k str 0 0] that
    by (auto simp: component_of_def nth_Cons split: nat.splits)
  have l: "length ?r = 3"
    using ParseDBMSVersion_loop_nth[of "[- 1, - 1, - 1]" 0 str 0 0] by simp
  have "?r = [?r ! 0, ?r ! 1, ?r ! 2]"
    using l by (auto simp: list_eq_iff_nth_eq nth_Cons numeral_3_eq_3 numeral_2_eq_2 less_Suc_eq split: nat.splits)
  then show ?thesis
    using n[of 0] n[of 1] n[of 2] by (simp add: parsed_version_def Let_def)
qed

lemma signed_difference_eq: "signed_difference a b = a - b"
  by (simp add: signed_difference_def)

lemma sint_signed_difference:
  assumes "- 1 \<le> sint a" and "0 \<le> sint b"
  shows "sint (signed_difference a b) = sint a - sint b"
proof -
  have "sint a < 2 ^ 31" "sint b < 2 ^ 31"
    using sint_lt[of a] sint_lt[of b] by simp_all
  then have b: "- (2 ^ 31) \<le> sint a - sint b" "sint a - sint b < 2 ^ 31"
    using assms by simp_all
  have "sint (word_of_int (sint a - sint b) :: int32) = signed_take_bit 31 (sint a - sint b)"
    by (subst sint_sbintrunc') simp
  also have "\<dots> = sint a - sint b"
    using b by (rule signed_take_bit_int_eq_self)
  finally show ?thesis
    by (simp only: signed_difference_def)
qed

lemma sint_of_nat_small:
  assumes "n \<le> 2147483647"
  shows "sint (of_nat n :: int32) = int n"
proof -
  have "sint (of_nat n :: int32) = signed_take_bit 31 (int n)"
    by (simp add: signed_of_nat)
  also have "\<dots> = int n"
    using assms by (intro signed_take_bit_int_eq_self) simp_all
  finally show ?thesis .
qed

lemma toInt_nonneg: "snd (toInt s) \<Longrightarrow> 0 \<le> sint (fst (toInt s))"
  by (auto simp: toInt_def Let_def sint_of_nat_small split: if_splits)

lemma CompareDBMSVersion_loop_exit:
  "r \<noteq> 0 \<or> \<not> i < 3 \<Longrightarrow> CompareDBMSVersion_loop version compareto i r = r"
  by (subst CompareDBMSVersion_loop.simps) auto

lemma CompareDBMSVersion_loop_step:
  "i < 3 \<Longrightarrow>
   CompareDBMSVersion_loop version compareto i 0 =
     (if (- 1 < sint (version ! i) \<or> compareto ! i \<noteq> 0) \<and> version ! i \<noteq> compareto ! i
      then version ! i - compareto ! i
      else CompareDBMSVersion_loop version compareto (Suc i) 0)"
  by (subst CompareDBMSVersion_loop.simps) (auto simp: CompareDBMSVersion_loop_exit)

lemma CompareDBMSVersion_loop_eq:
  "CompareDBMSVersion_loop [v0, v1, v2] [c0, c1, c2] 0 0 =
     compare_components [(v0, c0), (v1, c1), (v2, c2)]"
proof -
  let ?L = "CompareDBMSVersion_loop [v0, v1, v2] [c0, c1, c2]"
  have s2: "?L (Suc (Suc 0)) 0 =
              (if (- 1 < sint v2 \<or> c2 \<noteq> 0) \<and> v2 \<noteq> c2 then v2 - c2 else 0)"
    by (subst CompareDBMSVersion_loop_step) (simp_all add: CompareDBMSVersion_loop_exit)
  have s1: "?L (Suc 0) 0 =
              (if (- 1 < sint v1 \<or> c1 \<noteq> 0) \<and> v1 \<noteq> c1 then v1 - c1 else ?L (Suc (Suc 0)) 0)"
    by (subst CompareDBMSVersion_loop_step) simp_all
  have s0: "?L 0 0 =
              (if (- 1 < sint v0 \<or> c0 \<noteq> 0) \<and> v0 \<noteq> c0 then v0 - c0 else ?L (Suc 0) 0)"
    by (subst CompareDBMSVersion_loop_step) simp_all
  show ?thesis
    unfolding s0 s1 s2
    by (auto simp: signed_difference_eq)
qed

lemma ParseDBMSVersion_nonempty:
  assumes "m_versionString this \<noteq> []"
  shows "ParseDBMSVersion ctx db this =
           (- 1 < sint (fst (parsed_version (m_versionString this))),
            this\<lparr>m_versionMajor := fst (parsed_version (m_versionString this)),
                  m_versionMinor := fst (snd (parsed_version (m_versionString this))),
                  m_versionPoint := snd (snd (parsed_version (m_versionString this)))\<rparr>)"
  using assms
  by (simp add: ParseDBMSVersion_def Let_def ParseDBMSVersion_loop_eq split_beta)

lemma QueryDBMSVersion_fields:
  "fst (QueryDBMSVersion ctx db this) = (m_versionString (snd (QueryDBMSVersion ctx db this)) \<noteq> [])"
  "m_versionMajor (snd (QueryDBMSVersion ctx db this)) = m_versionMajor this"
  "m_versionMinor (snd (QueryDBMSVersion ctx db this)) = m_versionMinor this"
  "m_versionPoint (snd (QueryDBMSVersion ctx db this)) = m_versionPoint this"
  by (simp_all add: QueryDBMSVersion_def Let_def)

lemma ParseDBMSVersion_empty_fail:
  assumes "m_versionString this = []" and "\<not> fst (QueryDBMSVersion ctx db this)"
  shows "ParseDBMSVersion ctx db this = (False, snd (QueryDBMSVersion ctx db this))"
  using assms
  by (simp add: ParseDBMSVersion_def Let_def split_beta)

lemma ParseDBMSVersion_empty_ok:
  assumes "m_versionString this = []" and "fst (QueryDBMSVersion ctx db this)"
  shows "ParseDBMSVersion ctx db this =
           ParseDBMSVersion ctx db (snd (QueryDBMSVersion ctx db this))"
proof -
  have ne: "m_versionString (snd (QueryDBMSVersion ctx db this)) \<noteq> []"
    using assms(2) by (simp add: QueryDBMSVersion_fields(1))
  show ?thesis
    using assms ne
    by (simp add: ParseDBMSVersion_def Let_def split_beta)
qed

lemma ParseDBMSVersion_string_nonempty:
  assumes "m_versionString (snd (ParseDBMSVersion ctx db this)) \<noteq> []"
  shows "stored_version (snd (ParseDBMSVersion ctx db this)) =
           parsed_version (m_versionString (snd (ParseDBMSVersion ctx db this)))"
proof (cases "m_versionString this = []")
  case False
  then show ?thesis
    by (simp add: ParseDBMSVersion_nonempty stored_version_def)
next
  case True
  show ?thesis
  proof (cases "fst (QueryDBMSVersion ctx db this)")
    case q: True
    then have ne: "m_versionString (snd (QueryDBMSVersion ctx db this)) \<noteq> []"
      by (simp add: QueryDBMSVersion_fields(1))
    show ?thesis
      unfolding ParseDBMSVersion_empty_ok[OF True q]
      by (simp add: ParseDBMSVersion_nonempty[OF ne] stored_version_def)
  next
    case q: False
    then have "m_versionString (snd (QueryDBMSVersion ctx db this)) = []"
      by (simp add: QueryDBMSVersion_fields(1))
    then show ?thesis
      using assms by (simp add: ParseDBMSVersion_empty_fail[OF True q])
  qed
qed

lemma ParseDBMSVersion_string_empty:
  assumes "m_versionString (snd (ParseDBMSVersion ctx db this)) = []"
  shows "\<not> fst (ParseDBMSVersion ctx db this) \<and>
         stored_version (snd (ParseDBMSVersion ctx db this)) = stored_version this \<and>
         m_versionString this = []"
proof (cases "m_versionString this = []")
  case False
  then show ?thesis
    using assms by (simp add: ParseDBMSVersion_nonempty)
next
  case True
  show ?thesis
  proof (cases "fst (QueryDBMSVersion ctx db this)")
    case q: True
    then have ne: "m_versionString (snd (QueryDBMSVersion ctx db this)) \<noteq> []"
      by (simp add: QueryDBMSVersion_fields(1))
    show ?thesis
      using assms ne unfolding ParseDBMSVersion_empty_ok[OF True q]
      by (simp add: ParseDBMSVersion_nonempty[OF ne])
  next
    case q: False
    show ?thesis
      using True by (simp add: ParseDBMSVersion_empty_fail[OF True q] stored_version_def
                         QueryDBMSVersion_fields)
  qed
qed

lemma component_of_first:
  "(- 1 < sint (component_of groups 0)) = (groups \<noteq> [] \<and> snd (toInt (hd groups)))"
  using toInt_nonneg[of "hd groups"]
  by (cases groups) (auto simp: component_of_def)

lemma ParseDBMSVersion_result_major:
  "fst (ParseDBMSVersion ctx db this) =
     (- 1 < sint (m_versionMajor (snd (ParseDBMSVersion ctx db this))) \<and>
      m_versionString (snd (ParseDBMSVersion ctx db this)) \<noteq> [])"
proof (cases "m_versionString this = []")
  case False
  then show ?thesis
    by (simp add: ParseDBMSVersion_nonempty)
next
  case True
  show ?thesis
  proof (cases "fst (QueryDBMSVersion ctx db this)")
    case q: True
    then have ne: "m_versionString (snd (QueryDBMSVersion ctx db this)) \<noteq> []"
      by (simp add: QueryDBMSVersion_fields(1))
    show ?thesis
      using ne unfolding ParseDBMSVersion_empty_ok[OF True q]
      by (simp add: ParseDBMSVersion_nonempty[OF ne])
  next
    case q: False
    then show ?thesis
      by (simp add: ParseDBMSVersion_empty_fail[OF True q] QueryDBMSVersion_fields(1))
  qed
qed

lemma ParseDBMSVersion_succeeds_iff:
  "fst (ParseDBMSVersion ctx db this) =
     (digit_groups (m_versionString (snd (ParseDBMSVersion ctx db this))) \<noteq> [] \<and>
      snd (toInt (hd (digit_groups (m_versionString (snd (ParseDBMSVersion ctx db this)))))))"
proof (cases "m_versionString (snd (ParseDBMSVersion ctx db this)) = []")
  case True
  then show ?thesis
    using ParseDBMSVersion_string_empty[OF True] by simp
next
  case False
  have "m_versionMajor (snd (ParseDBMSVersion ctx db this)) =
          component_of (digit_groups (m_versionString (snd (ParseDBMSVersion ctx db this)))) 0"
    using ParseDBMSVersion_string_nonempty[OF False]
    by (simp add: stored_version_def parsed_version_def Let_def)
  then show ?thesis
    using False ParseDBMSVersion_result_major[of ctx db this]
    by (simp add: component_of_first)
qed

lemma CompareDBMSVersion_known:
  assumes "0 \<le> sint (m_versionMajor this)"
  shows "CompareDBMSVersion ctx db this major minor point =
           (compare_components [(m_versionMajor this, major), (m_versionMinor this, minor),
                                (m_versionPoint this, point)], this)"
  using assms
  by (simp add: CompareDBMSVersion_def Let_def CompareDBMSVersion_loop_eq)

lemma CompareDBMSVersion_parse:
  assumes "sint (m_versionMajor this) < 0"
  shows "CompareDBMSVersion ctx db this major minor point =
     (if fst (ParseDBMSVersion ctx db this)
      then compare_components
              [(m_versionMajor (snd (ParseDBMSVersion ctx db this)), major),
               (m_versionMinor (snd (ParseDBMSVersion ctx db this)), minor),
               (m_versionPoint (snd (ParseDBMSVersion ctx db this)), point)]
      else kUnknownVersionNumber,
      snd (ParseDBMSVersion ctx db this))"
  using assms
  by (simp add: CompareDBMSVersion_def Let_def CompareDBMSVersion_loop_eq split_beta)

lemma GetDBMSVersion_inv:
  assumes "m_versionString this = [] \<longrightarrow> stored_version this = unknown_version"
  shows "m_versionString (snd (GetDBMSVersion ctx db this)) = [] \<longrightarrow>
         stored_version (snd (GetDBMSVersion ctx db this)) = unknown_version"
  using assms
  by (simp add: GetDBMSVersion_def Let_def stored_version_def QueryDBMSVersion_fields)

lemma ParseDBMSVersion_inv:
  assumes "m_versionString this = [] \<longrightarrow> stored_version this = unknown_version"
  shows "m_versionString (snd (ParseDBMSVersion ctx db this)) = [] \<longrightarrow>
         stored_version (snd (ParseDBMSVersion ctx db this)) = unknown_version"
  using assms ParseDBMSVersion_string_empty[of ctx db this]
  by auto

lemma CompareDBMSVersion_inv:
  assumes "m_versionString this = [] \<longrightarrow> stored_version this = unknown_version"
  shows "m_versionString (snd (CompareDBMSVersion ctx db this major minor point)) = [] \<longrightarrow>
         stored_version (snd (CompareDBMSVersion ctx db this major minor point)) = unknown_version"
proof (cases "0 \<le> sint (m_versionMajor this)")
  case True
  then show ?thesis
    using assms by (simp add: CompareDBMSVersion_known)
next
  case False
  then have "sint (m_versionMajor this) < 0" by simp
  then show ?thesis
    using ParseDBMSVersion_inv[OF assms, of ctx db]
    by (simp add: CompareDBMSVersion_parse)
qed

lemma reachable_unknown:
  "reachable this \<Longrightarrow> m_versionString this = [] \<longrightarrow> stored_version this = unknown_version"
proof (induction rule: reachable.induct)
  case reachable_new
  show ?case by (simp add: DBUtil_new_def stored_version_def unknown_version_def)
next
  case (reachable_Get this ctx db)
  from reachable_Get.IH show ?case by (rule GetDBMSVersion_inv)
next
  case (reachable_Compare this ctx db major minor point)
  from reachable_Compare.IH show ?case by (rule CompareDBMSVersion_inv)
qed


lemmas version_eval =
  ParseDBMSVersion_def QueryDBMSVersion_def GetSetting_def DBUtil_new_def
  ParseDBMSVersion_loop.simps indexIn_def cap_def toInt_def isDigit_def digit_value_def
  Let_def stored_version_def example_context_def example_database_def

text \<open>
  C4. Parsing takes the first three groups of consecutive digits of the version string,
  left to right, as major, minor and point; a component with no group stays unknown
  (\<open>- 1\<close>), and a group whose number does not fit an \<open>int\<close> becomes unknown alone, the
  other groups keeping their values. Whenever \<open>ParseDBMSVersion\<close> leaves a version
  string in the object, the three stored components are the ones of that string. So
  5.0.22 gives (5, 0, 22), 10.3-something-4 gives (10, 3, 4), 10.3 gives (10, 3, unknown).
\<close>

theorem ParseDBMSVersion_digit_groups:
  "ParseDBMSVersion_loop str 0 0 [- 1, - 1, - 1] =
     (case parsed_version str of (a, b, c) \<Rightarrow> [a, b, c]) \<and>
   (m_versionString (snd (ParseDBMSVersion ctx db this)) \<noteq> [] \<longrightarrow>
      stored_version (snd (ParseDBMSVersion ctx db this)) =
        parsed_version (m_versionString (snd (ParseDBMSVersion ctx db this)))) \<and>
   ParseDBMSVersion_loop ''5.0.22'' 0 0 [- 1, - 1, - 1] = [5, 0, 22] \<and>
   ParseDBMSVersion_loop ''10.3-something-4'' 0 0 [- 1, - 1, - 1] = [10, 3, 4] \<and>
   ParseDBMSVersion_loop ''10.3'' 0 0 [- 1, - 1, - 1] = [10, 3, - 1] \<and>
   ParseDBMSVersion_loop ''5.99999999999.3'' 0 0 [- 1, - 1, - 1] = [5, - 1, 3]"
proof -
  have e1: "ParseDBMSVersion_loop ''5.0.22'' 0 0 [- 1, - 1, - 1] = [5, 0, 22]"
    by (simp add: version_eval)
  have e2: "ParseDBMSVersion_loop ''10.3-something-4'' 0 0 [- 1, - 1, - 1] = [10, 3, 4]"
    by (simp add: version_eval)
  have e3: "ParseDBMSVersion_loop ''10.3'' 0 0 [- 1, - 1, - 1] = [10, 3, - 1]"
    by (simp add: version_eval)
  have e4: "ParseDBMSVersion_loop ''5.99999999999.3'' 0 0 [- 1, - 1, - 1] = [5, - 1, 3]"
    by (simp add: version_eval)
  show ?thesis
    using ParseDBMSVersion_loop_eq[of str] ParseDBMSVersion_string_nonempty[of ctx db this]
      e1 e2 e3 e4
    by blast
qed

theorem ParseDBMSVersion_digit_groups_witness:
  "m_versionString
     (snd (ParseDBMSVersion example_context
             (example_database (Some ''5.1.30-log'') []) DBUtil_new)) \<noteq> [] \<and>
   stored_version
     (snd (ParseDBMSVersion example_context
             (example_database (Some ''5.1.30-log'') []) DBUtil_new)) =
   parsed_version ''5.1.30-log'' \<and>
   parsed_version ''5.1.30-log'' = (5, 1, 30)"
proof -
  let ?p = "ParseDBMSVersion example_context (example_database (Some ''5.1.30-log'') []) DBUtil_new"
  have s: "m_versionString (snd ?p) = ''5.1.30-log''"
    by (simp add: version_eval)
  have v: "parsed_version ''5.1.30-log'' = (5, 1, 30)"
    by (simp add: parsed_version_def component_of_def toInt_def isDigit_def digit_value_def)
  have n: "m_versionString (snd ?p) \<noteq> []"
    unfolding s by simp
  have "stored_version (snd ?p) = parsed_version (m_versionString (snd ?p))"
    using ParseDBMSVersion_digit_groups[of "''5.1.30-log''" example_context
            "example_database (Some ''5.1.30-log'') []" DBUtil_new] n
    by blast
  then have "stored_version (snd ?p) = parsed_version ''5.1.30-log''"
    unfolding s .
  with n v show ?thesis by blast
qed

text \<open>
  C3. \<open>CompareDBMSVersion\<close> parses the version when the major component is not known
  yet. When the version is parsed, the result is found by walking major, minor and
  point in that order: a component is skipped exactly when the probed component is
  unknown (negative) and the requested value is 0; otherwise, when the two differ, the
  result is their signed difference; when nothing differs, the result is 0. When
  parsing fails the result is the unknown sentinel, and parsing fails exactly when the
  version string holds no group of digits or its first group does not convert. The
  signed difference is the mathematical one when the probed component is at least
  \<open>- 1\<close> and the requested value is not negative.
\<close>

theorem CompareDBMSVersion_result:
  "(0 \<le> sint (m_versionMajor this) \<longrightarrow>
      CompareDBMSVersion ctx db this major minor point =
        (compare_components
           [(m_versionMajor this, major), (m_versionMinor this, minor),
            (m_versionPoint this, point)], this)) \<and>
   (sint (m_versionMajor this) < 0 \<and> fst (ParseDBMSVersion ctx db this) \<longrightarrow>
      CompareDBMSVersion ctx db this major minor point =
        (compare_components
           [(m_versionMajor (snd (ParseDBMSVersion ctx db this)), major),
            (m_versionMinor (snd (ParseDBMSVersion ctx db this)), minor),
            (m_versionPoint (snd (ParseDBMSVersion ctx db this)), point)],
         snd (ParseDBMSVersion ctx db this))) \<and>
   (sint (m_versionMajor this) < 0 \<and> \<not> fst (ParseDBMSVersion ctx db this) \<longrightarrow>
      CompareDBMSVersion ctx db this major minor point =
        (kUnknownVersionNumber, snd (ParseDBMSVersion ctx db this))) \<and>
   fst (ParseDBMSVersion ctx db this) =
     (digit_groups (m_versionString (snd (ParseDBMSVersion ctx db this))) \<noteq> [] \<and>
      snd (toInt (hd (digit_groups (m_versionString (snd (ParseDBMSVersion ctx db this))))))) \<and>
   (- 1 \<le> sint a \<and> 0 \<le> sint b \<longrightarrow> sint (signed_difference a b) = sint a - sint b)"
proof -
  have k: "CompareDBMSVersion ctx db this major minor point =
        (compare_components
           [(m_versionMajor this, major), (m_versionMinor this, minor),
            (m_versionPoint this, point)], this)"
    if "0 \<le> sint (m_versionMajor this)"
    using that by (rule CompareDBMSVersion_known)
  have p: "CompareDBMSVersion ctx db this major minor point =
        (compare_components
           [(m_versionMajor (snd (ParseDBMSVersion ctx db this)), major),
            (m_versionMinor (snd (ParseDBMSVersion ctx db this)), minor),
            (m_versionPoint (snd (ParseDBMSVersion ctx db this)), point)],
         snd (ParseDBMSVersion ctx db this))"
    if "sint (m_versionMajor this) < 0" "fst (ParseDBMSVersion ctx db this)"
    using that by (simp add: CompareDBMSVersion_parse)
  have u: "CompareDBMSVersion ctx db this major minor point =
        (kUnknownVersionNumber, snd (ParseDBMSVersion ctx db this))"
    if "sint (m_versionMajor this) < 0" "\<not> fst (ParseDBMSVersion ctx db this)"
    using that by (simp add: CompareDBMSVersion_parse)
  have d: "sint (signed_difference a b) = sint a - sint b" if "- 1 \<le> sint a" "0 \<le> sint b"
    using that by (rule sint_signed_difference)
  show ?thesis
    using k p u d ParseDBMSVersion_succeeds_iff[of ctx db this]
    by blast
qed

theorem CompareDBMSVersion_result_witness:
  "sint (m_versionMajor DBUtil_new) < 0 \<and>
   fst (ParseDBMSVersion example_context (example_database (Some ''5.1.30-log'') []) DBUtil_new) \<and>
   fst (CompareDBMSVersion example_context (example_database (Some ''5.1.30-log'') [])
          DBUtil_new 5 1 7) = 23 \<and>
   \<not> fst (ParseDBMSVersion example_context (example_database (Some ''MariaDB'') []) DBUtil_new) \<and>
   fst (CompareDBMSVersion example_context (example_database (Some ''MariaDB'') [])
          DBUtil_new 5 1 7) = kUnknownVersionNumber \<and>
   0 \<le> sint (m_versionMajor
              \<lparr>m_versionString = ''5.1'', m_versionMajor = 5, m_versionMinor = 1,
                 m_versionPoint = - 1\<rparr>) \<and>
   fst (CompareDBMSVersion example_context (example_database None [])
          \<lparr>m_versionString = ''5.1'', m_versionMajor = 5, m_versionMinor = 1,
             m_versionPoint = - 1\<rparr> 5 1 0) = 0 \<and>
   - 1 \<le> sint (- 1 :: int32) \<and> 0 \<le> sint (2147483647 :: int32) \<and>
   sint (signed_difference (- 1) 2147483647 :: int32) = - 2147483648"
proof -
  let ?good = "example_database (Some ''5.1.30-log'') []"
  let ?bad = "example_database (Some ''MariaDB'') []"
  let ?obj = "\<lparr>m_versionString = ''5.1'', m_versionMajor = 5, m_versionMinor = 1,
                 m_versionPoint = - 1\<rparr>"
  have n: "sint (m_versionMajor DBUtil_new) < 0"
    by (simp add: DBUtil_new_def)
  have pg: "ParseDBMSVersion example_context ?good DBUtil_new =
              (True, \<lparr>m_versionString = ''5.1.30-log'', m_versionMajor = 5,
                       m_versionMinor = 1, m_versionPoint = 30\<rparr>)"
    by (simp add: version_eval)
  have pb: "ParseDBMSVersion example_context ?bad DBUtil_new =
              (False, \<lparr>m_versionString = ''MariaDB'', m_versionMajor = - 1,
                       m_versionMinor = - 1, m_versionPoint = - 1\<rparr>)"
    by (simp add: version_eval)
  have g: "fst (CompareDBMSVersion example_context ?good DBUtil_new 5 1 7) = 23"
    using CompareDBMSVersion_result[of DBUtil_new example_context ?good 5 1 7] n
    by (simp add: pg signed_difference_def)
  have b: "fst (CompareDBMSVersion example_context ?bad DBUtil_new 5 1 7) = kUnknownVersionNumber"
    using CompareDBMSVersion_result[of DBUtil_new example_context ?bad 5 1 7] n
    by (simp add: pb)
  have k: "0 \<le> sint (m_versionMajor ?obj)"
    by simp
  have c: "fst (CompareDBMSVersion example_context (example_database None []) ?obj 5 1 0) = 0"
    using CompareDBMSVersion_result[of ?obj example_context "example_database None []" 5 1 0] k
    by simp
  have r: "- 1 \<le> sint (- 1 :: int32)" "0 \<le> sint (2147483647 :: int32)"
    by simp_all
  have d: "sint (signed_difference (- 1) 2147483647 :: int32) = - 2147483648"
    using CompareDBMSVersion_result[of this ctx db major minor point "- 1" 2147483647] r
    by simp
  show ?thesis
    using n pg pb g b k c r d by simp
qed

text \<open>
  C9. An object is built by the constructor and changed only by \<open>GetDBMSVersion\<close> and
  \<open>CompareDBMSVersion\<close>. After \<open>ParseDBMSVersion\<close> on such an object, either a
  version string is stored and the three components are the ones parsed from it in
  this call, or no version string is stored, the call has failed and the three
  components are all unknown. A call that fails never leaves the major component set.
\<close>

theorem ParseDBMSVersion_all_or_unknown:
  assumes "reachable this"
  shows "(m_versionString (snd (ParseDBMSVersion ctx db this)) \<noteq> [] \<longrightarrow>
            stored_version (snd (ParseDBMSVersion ctx db this)) =
              parsed_version (m_versionString (snd (ParseDBMSVersion ctx db this)))) \<and>
         (m_versionString (snd (ParseDBMSVersion ctx db this)) = [] \<longrightarrow>
            \<not> fst (ParseDBMSVersion ctx db this) \<and>
            stored_version (snd (ParseDBMSVersion ctx db this)) = unknown_version) \<and>
         (\<not> fst (ParseDBMSVersion ctx db this) \<longrightarrow>
            sint (m_versionMajor (snd (ParseDBMSVersion ctx db this))) < 0)"
proof -
  let ?p = "ParseDBMSVersion ctx db this"
  have a: "stored_version (snd ?p) = parsed_version (m_versionString (snd ?p))"
    if "m_versionString (snd ?p) \<noteq> []"
    using that by (rule ParseDBMSVersion_string_nonempty)
  have b: "\<not> fst ?p \<and> stored_version (snd ?p) = unknown_version"
    if e: "m_versionString (snd ?p) = []"
    using ParseDBMSVersion_string_empty[OF e] reachable_unknown[OF assms] by simp
  have c: "sint (m_versionMajor (snd ?p)) < 0" if f: "\<not> fst ?p"
  proof (cases "m_versionString (snd ?p) = []")
    case True
    from b[OF True] show ?thesis
      by (simp add: stored_version_def unknown_version_def)
  next
    case False
    then show ?thesis
      using f ParseDBMSVersion_result_major[of ctx db this] by simp
  qed
  from a b c show ?thesis by blast
qed

theorem ParseDBMSVersion_all_or_unknown_witness:
  "reachable (snd (CompareDBMSVersion example_context (example_database None []) DBUtil_new 5 0 0)) \<and>
   ParseDBMSVersion example_context (example_database None [])
     (snd (CompareDBMSVersion example_context (example_database None []) DBUtil_new 5 0 0)) =
   (False, DBUtil_new) \<and>
   m_versionString DBUtil_new = [] \<and> stored_version DBUtil_new = unknown_version \<and>
   sint (m_versionMajor DBUtil_new) < 0 \<and>
   stored_version
     (snd (ParseDBMSVersion example_context (example_database (Some ''5.1.30-log'') [])
        (snd (CompareDBMSVersion example_context (example_database None []) DBUtil_new 5 0 0)))) =
   (5, 1, 30)"
proof -
  let ?none = "example_database None []"
  let ?good = "example_database (Some ''5.1.30-log'') []"
  let ?obj = "snd (CompareDBMSVersion example_context ?none DBUtil_new 5 0 0)"
  have r: "reachable ?obj"
    by (rule reachable_Compare[OF reachable_new])
  have t: "?obj = DBUtil_new"
    by (simp add: CompareDBMSVersion_def version_eval)
  have f: "ParseDBMSVersion example_context ?none ?obj = (False, DBUtil_new)"
    unfolding t by (simp add: version_eval)
  have s: "m_versionString (snd (ParseDBMSVersion example_context ?good ?obj)) = ''5.1.30-log''"
    unfolding t by (simp add: version_eval)
  have v: "parsed_version ''5.1.30-log'' = (5, 1, 30)"
    by (simp add: parsed_version_def component_of_def toInt_def isDigit_def digit_value_def)
  have u: "m_versionString DBUtil_new = [] \<and> stored_version DBUtil_new = unknown_version \<and>
           sint (m_versionMajor DBUtil_new) < 0"
    using ParseDBMSVersion_all_or_unknown[OF r, of example_context ?none]
    unfolding f by (simp add: DBUtil_new_def)
  have g: "stored_version (snd (ParseDBMSVersion example_context ?good ?obj)) = (5, 1, 30)"
    using ParseDBMSVersion_all_or_unknown[OF r, of example_context ?good]
    unfolding s v by simp
  from r f u g show ?thesis by blast
qed

section \<open>Properties of the backup\<close>

lemmas backup_eval =
  BackupDB_def BackupDB_attempts_def BackupDB_housekeeping_def DoBackup_internal_def
  compress_backup_def DoBackup_script_def CreateTemporaryDBConf_def
  myth_system_def unlink_def CreateBackupFilename_def GetBackupDirectory_def
  GetSetting_def GetNumSetting_def SaveSettingOnHost_def IsNewDatabase_def GetTables_def
  endsWith_def GENERIC_EXIT_OK_def Let_def
  example_host_def example_world_def example_context_def example_database_def

lemma CreateTemporaryDBConf_context:
  "gCoreContext (snd (snd (CreateTemporaryDBConf h info w))) = gCoreContext w"
  by (simp add: CreateTemporaryDBConf_def Let_def)

lemma myth_system_context:
  "gCoreContext (snd (myth_system h command w)) = gCoreContext w"
  by (simp add: myth_system_def)

lemma unlink_context: "gCoreContext (unlink path w) = gCoreContext w"
  by (simp add: unlink_def)

lemma compress_backup_context:
  "gCoreContext (snd (compress_backup h compressCommand backupPathname w)) = gCoreContext w"
  by (simp add: compress_backup_def Let_def split_beta myth_system_context)

lemma compress_backup_events:
  "events (snd (compress_backup h compressCommand backupPathname w)) =
     events w @
     (if compressCommand \<noteq> [] then [System (compressCommand @ '' '' @ backupPathname)] else [])"
  by (simp add: compress_backup_def Let_def split_beta myth_system_def)

lemma compress_backup_conf_files:
  "conf_files (snd (compress_backup h compressCommand backupPathname w)) = conf_files w"
  by (simp add: compress_backup_def Let_def split_beta myth_system_def)

lemma DoBackup_script_context:
  "gCoreContext (snd (snd (DoBackup_script h backupScript filename w))) = gCoreContext w"
  by (simp add: DoBackup_script_def Let_def split_beta CreateTemporaryDBConf_context
        myth_system_context unlink_context)

lemma DoBackup_internal_context:
  "gCoreContext (snd (snd (DoBackup_internal h filename w))) = gCoreContext w"
  by (simp add: DoBackup_internal_def Let_def split_beta CreateTemporaryDBConf_context
        myth_system_context unlink_context compress_backup_context)

lemma CreateTemporaryDBConf_staged:
  assumes "fopen_ok h (createTempFile h ''/tmp/mythtv_db_backup_conf_XXXXXX'' (length (events w)))"
  shows "CreateTemporaryDBConf h info w =
           (True, createTempFile h ''/tmp/mythtv_db_backup_conf_XXXXXX'' (length (events w)),
            w\<lparr>conf_files :=
                 (conf_files w)(createTempFile h ''/tmp/mythtv_db_backup_conf_XXXXXX''
                                  (length (events w)) \<mapsto> info),
               events := events w @
                 [CreateFile (createTempFile h ''/tmp/mythtv_db_backup_conf_XXXXXX''
                                (length (events w))) info]\<rparr>)"
  using assms by (simp add: CreateTemporaryDBConf_def Let_def)

lemma CreateTemporaryDBConf_not_staged:
  assumes "\<not> fopen_ok h (createTempFile h ''/tmp/mythtv_db_backup_conf_XXXXXX'' (length (events w)))"
  shows "CreateTemporaryDBConf h info w = (False, [], w)"
  using assms by (simp add: CreateTemporaryDBConf_def Let_def)

lemma DoBackup_script_events:
  assumes "fopen_ok h (createTempFile h ''/tmp/mythtv_db_backup_conf_XXXXXX'' (length (events w)))"
  shows "\<exists>info command.
           events (snd (snd (DoBackup_script h backupScript filename w))) =
             events w @
             [CreateFile (createTempFile h ''/tmp/mythtv_db_backup_conf_XXXXXX''
                            (length (events w))) info,
              System command,
              Unlink (createTempFile h ''/tmp/mythtv_db_backup_conf_XXXXXX''
                        (length (events w)))]"
  by (simp add: DoBackup_script_def Let_def split_beta CreateTemporaryDBConf_staged[OF assms]
        myth_system_def unlink_def)

lemma DoBackup_script_removed:
  assumes "fopen_ok h (createTempFile h ''/tmp/mythtv_db_backup_conf_XXXXXX'' (length (events w)))"
  shows "conf_files (snd (snd (DoBackup_script h backupScript filename w)))
           (createTempFile h ''/tmp/mythtv_db_backup_conf_XXXXXX'' (length (events w))) = None"
  by (simp add: DoBackup_script_def Let_def split_beta CreateTemporaryDBConf_staged[OF assms]
        myth_system_def unlink_def)

lemma DoBackup_internal_events:
  assumes "fopen_ok h (createTempFile h ''/tmp/mythtv_db_backup_conf_XXXXXX'' (length (events w)))"
  shows "\<exists>info command rest.
           events (snd (snd (DoBackup_internal h filename w))) =
             events w @
             [CreateFile (createTempFile h ''/tmp/mythtv_db_backup_conf_XXXXXX''
                            (length (events w))) info,
              System command,
              Unlink (createTempFile h ''/tmp/mythtv_db_backup_conf_XXXXXX''
                        (length (events w)))] @ rest \<and>
           (rest = [] \<or> (\<exists>compress. rest = [System compress]))"
  by (simp add: DoBackup_internal_def Let_def split_beta CreateTemporaryDBConf_staged[OF assms]
        myth_system_def unlink_def compress_backup_events)

lemma DoBackup_internal_removed:
  assumes "fopen_ok h (createTempFile h ''/tmp/mythtv_db_backup_conf_XXXXXX'' (length (events w)))"
  shows "conf_files (snd (snd (DoBackup_internal h filename w)))
           (createTempFile h ''/tmp/mythtv_db_backup_conf_XXXXXX'' (length (events w))) = None"
  by (simp add: DoBackup_internal_def Let_def split_beta CreateTemporaryDBConf_staged[OF assms]
        myth_system_def unlink_def compress_backup_conf_files)

lemma DoBackup_internal_not_staged:
  assumes "\<not> fopen_ok h (createTempFile h ''/tmp/mythtv_db_backup_conf_XXXXXX'' (length (events w)))"
  shows "DoBackup_internal h filename w = (False, filename, w)"
  by (simp add: DoBackup_internal_def Let_def split_beta CreateTemporaryDBConf_not_staged[OF assms])

lemma DoBackup_internal_dump_fails:
  assumes "fopen_ok h (createTempFile h ''/tmp/mythtv_db_backup_conf_XXXXXX'' (length (events w)))"
      and "\<not> fst (DoBackup_internal h filename w)"
  shows "fst (snd (DoBackup_internal h filename w)) = ''__FAILED__''"
  using assms(2)
  by (simp add: DoBackup_internal_def Let_def split_beta CreateTemporaryDBConf_staged[OF assms(1)]
        split: if_splits)

lemma DoBackup_script_fails:
  assumes "\<not> fst (DoBackup_script h backupScript filename w)"
  shows "fst (snd (DoBackup_script h backupScript filename w)) = ''__FAILED__''"
  using assms
  by (simp add: DoBackup_script_def Let_def split_beta split: if_splits)

lemma DoBackup_internal_fails:
  assumes "\<not> fst (DoBackup_internal h filename w)"
  shows "fst (snd (DoBackup_internal h filename w)) = ''__FAILED__'' \<or>
         fst (snd (DoBackup_internal h filename w)) = filename"
proof (cases "fopen_ok h (createTempFile h ''/tmp/mythtv_db_backup_conf_XXXXXX'' (length (events w)))")
  case True
  from DoBackup_internal_dump_fails[OF True assms] show ?thesis by simp
next
  case False
  from DoBackup_internal_not_staged[OF False] show ?thesis by simp
qed

lemma BackupDB_attempts_context:
  "gCoreContext (snd (snd (BackupDB_attempts h backupScript filename w))) = gCoreContext w"
  by (simp add: BackupDB_attempts_def Let_def split_beta DoBackup_script_context
        DoBackup_internal_context)

lemma BackupDB_attempts_fail:
  assumes "\<not> fst (BackupDB_attempts h backupScript [] w)"
  shows "fst (snd (BackupDB_attempts h backupScript [] w)) = ''__FAILED__'' \<or>
         fst (snd (BackupDB_attempts h backupScript [] w)) = []"
proof (cases "backupScript \<noteq> [] \<and> fst (DoBackup_script h backupScript [] w)")
  case True
  then show ?thesis
    using assms by (simp add: BackupDB_attempts_def Let_def split_beta)
next
  case False
  show ?thesis
  proof (cases "backupScript = []")
    case True
    then have a: "BackupDB_attempts h backupScript [] w = DoBackup_internal h [] w"
      by (simp add: BackupDB_attempts_def Let_def split_beta)
    show ?thesis
      using assms DoBackup_internal_fails[of h "[]" w] unfolding a by blast
  next
    case ne: False
    let ?s = "DoBackup_script h backupScript [] w"
    have f: "\<not> fst ?s" using False ne by simp
    have a: "BackupDB_attempts h backupScript [] w =
               DoBackup_internal h (fst (snd ?s)) (snd (snd ?s))"
      using f ne by (simp add: BackupDB_attempts_def Let_def split_beta)
    show ?thesis
      using assms DoBackup_internal_fails[of h "fst (snd ?s)" "snd (snd ?s)"]
        DoBackup_script_fails[OF f]
      unfolding a by auto
  qed
qed

lemma BackupDB_housekeeping_context:
  "gCoreContext (BackupDB_housekeeping h w) = gCoreContext w"
  by (simp add: BackupDB_housekeeping_def Let_def)

text \<open>\<open>BackupDB\<close> when none of the three checks stops it.\<close>

lemma BackupDB_proceeds_eq:
  assumes "\<not> USING_MINGW h"
      and "GetNumSetting (gCoreContext w) ''DisableAutomaticBackup'' 0 = 0"
      and "\<not> IsNewDatabase (connection h)"
  shows "\<exists>backupScript.
           fst (BackupDB h w) =
             (if fst (BackupDB_attempts h backupScript []
                        (w\<lparr>gCoreContext :=
                             SaveSettingOnHost ''BackupDBLastRunStart''
                               (toString h (clock w) ''yyyy-MM-dd hh:mm:ss'') (gCoreContext w)\<rparr>))
              then kDB_Backup_Completed else kDB_Backup_Failed) \<and>
           fst (snd (BackupDB h w)) =
             fst (snd (BackupDB_attempts h backupScript []
                        (w\<lparr>gCoreContext :=
                             SaveSettingOnHost ''BackupDBLastRunStart''
                               (toString h (clock w) ''yyyy-MM-dd hh:mm:ss'') (gCoreContext w)\<rparr>))) \<and>
           settings (gCoreContext (snd (snd (BackupDB h w)))) ''BackupDBLastRunStart'' =
             settings (gCoreContext (snd (snd (BackupDB_attempts h backupScript []
                        (w\<lparr>gCoreContext :=
                             SaveSettingOnHost ''BackupDBLastRunStart''
                               (toString h (clock w) ''yyyy-MM-dd hh:mm:ss'') (gCoreContext w)\<rparr>)))))
               ''BackupDBLastRunStart''"
  using assms
  by (intro exI[where x="if \<not> file_exists h (GetSetting (gCoreContext w) ''DatabaseBackupScript''
                                             (ShareDir h @ ''mythconverg_backup.pl''))
                         then []
                         else GetSetting (gCoreContext w) ''DatabaseBackupScript''
                                (ShareDir h @ ''mythconverg_backup.pl'')"])
     (simp add: BackupDB_def Let_def split_beta BackupDB_housekeeping_context
        SaveSettingOnHost_def)

lemma BackupDB_proceeds:
  assumes "\<not> USING_MINGW h"
      and "GetNumSetting (gCoreContext w) ''DisableAutomaticBackup'' 0 = 0"
      and "\<not> IsNewDatabase (connection h)"
  shows "fst (BackupDB h w) = kDB_Backup_Completed \<or> fst (BackupDB h w) = kDB_Backup_Failed"
  using BackupDB_proceeds_eq[OF assms] by (auto split: if_splits)

lemma BackupDB_records_start:
  assumes "\<not> USING_MINGW h"
      and "GetNumSetting (gCoreContext w) ''DisableAutomaticBackup'' 0 = 0"
      and "\<not> IsNewDatabase (connection h)"
  shows "settings (gCoreContext (snd (snd (BackupDB h w)))) ''BackupDBLastRunStart'' =
           Some (toString h (clock w) ''yyyy-MM-dd hh:mm:ss'')"
  using BackupDB_proceeds_eq[OF assms]
  by (auto simp: BackupDB_attempts_context SaveSettingOnHost_def)

lemma IsBackupInProgress_eq:
  "IsBackupInProgress ctx fromString now =
     (GetSetting ctx ''BackupDBLastRunStart'' [] \<noteq> [] \<and>
      (if GetSetting ctx ''BackupDBLastRunEnd'' [] = []
       then now - fromString (replace_char CHR '' '' CHR ''T''
                                (GetSetting ctx ''BackupDBLastRunStart'' [])) < 600
       else fromString (replace_char CHR '' '' CHR ''T''
                          (GetSetting ctx ''BackupDBLastRunEnd'' []))
              < fromString (replace_char CHR '' '' CHR ''T''
                              (GetSetting ctx ''BackupDBLastRunStart'' [])) \<and>
            now - fromString (replace_char CHR '' '' CHR ''T''
                                (GetSetting ctx ''BackupDBLastRunStart'' [])) \<le> 600))"
  by (auto simp: IsBackupInProgress_def Let_def secsTo_def)

text \<open>
  C2. With a start time and an earlier end time recorded, and exactly 600 seconds
  gone since the start, \<open>IsBackupInProgress\<close> answers true, although the threshold
  of 600 seconds has been reached; with the same start time and no end time it
  answers false at that moment.
\<close>

theorem IsBackupInProgress_at_threshold:
  "secsTo (example_fromString ''2011-06-01T12:00:00'') 43800 = 600 \<and>
   example_fromString ''2011-06-01T11:58:20'' < example_fromString ''2011-06-01T12:00:00'' \<and>
   IsBackupInProgress
     (example_context\<lparr>settings :=
        [''BackupDBLastRunStart'' \<mapsto> ''2011-06-01 12:00:00'',
         ''BackupDBLastRunEnd'' \<mapsto> ''2011-06-01 11:58:20'']\<rparr>)
     example_fromString 43800 = True \<and>
   IsBackupInProgress
     (example_context\<lparr>settings := [''BackupDBLastRunStart'' \<mapsto> ''2011-06-01 12:00:00'']\<rparr>)
     example_fromString 43800 = False"
  by (simp add: IsBackupInProgress_def GetSetting_def example_context_def
        example_fromString_def replace_char_def secsTo_def Let_def)

lemma BackupDB_failed_path:
  assumes "fst (BackupDB h w) = kDB_Backup_Failed"
  shows "fst (snd (BackupDB h w)) = ''__FAILED__'' \<or> fst (snd (BackupDB h w)) = []"
proof -
  have short: "\<not> USING_MINGW h \<and>
               GetNumSetting (gCoreContext w) ''DisableAutomaticBackup'' 0 = 0 \<and>
               \<not> IsNewDatabase (connection h)"
    using assms by (auto simp: BackupDB_def Let_def split: if_splits)
  let ?w0 = "w\<lparr>gCoreContext :=
                 SaveSettingOnHost ''BackupDBLastRunStart''
                   (toString h (clock w) ''yyyy-MM-dd hh:mm:ss'') (gCoreContext w)\<rparr>"
  from short BackupDB_proceeds_eq[of h w]
  obtain backupScript where
    r: "fst (BackupDB h w) =
          (if fst (BackupDB_attempts h backupScript [] ?w0)
           then kDB_Backup_Completed else kDB_Backup_Failed)"
    and p: "fst (snd (BackupDB h w)) = fst (snd (BackupDB_attempts h backupScript [] ?w0))"
    by blast
  have "\<not> fst (BackupDB_attempts h backupScript [] ?w0)"
    using assms r by (auto split: if_splits)
  from BackupDB_attempts_fail[OF this] show ?thesis
    unfolding p .
qed

text \<open>
  C5. No backup script is installed, the database has tables, and the configuration
  file for \<open>mysqldump\<close> cannot be opened: \<open>BackupDB\<close> returns the failed status with
  the empty path, not with the failure marker. When the file can be opened and
  \<open>mysqldump\<close> exits with a status other than 0, the path is the failure marker.
\<close>

theorem BackupDB_failed_with_empty_path:
  "fst (BackupDB (example_host False 0) example_world) = kDB_Backup_Failed \<and>
   fst (snd (BackupDB (example_host False 0) example_world)) = [] \<and>
   fst (snd (BackupDB (example_host False 0) example_world)) \<noteq> ''__FAILED__'' \<and>
   fst (BackupDB (example_host True 2) example_world) = kDB_Backup_Failed \<and>
   fst (snd (BackupDB (example_host True 2) example_world)) = ''__FAILED__''"
proof -
  have a: "fst (BackupDB (example_host False 0) example_world) = kDB_Backup_Failed \<and>
           fst (snd (BackupDB (example_host False 0) example_world)) = []"
    by (simp add: backup_eval)
  have b: "fst (BackupDB (example_host True 2) example_world) = kDB_Backup_Failed \<and>
           fst (snd (BackupDB (example_host True 2) example_world)) = ''__FAILED__''"
    by (simp add: backup_eval)
  from a b show ?thesis by simp
qed

text \<open>
  C7. \<open>BackupDB\<close> checks the platform, then the setting that disables automatic
  backups, then whether the database is new. On a platform without backups and under
  the disabling setting it returns the disabled status, on a new database the
  empty-database status; in each case the path is empty and nothing is changed: no
  start time is saved and no configuration file is written. Whenever the status is
  one of these two, nothing is changed. When none of the three holds, the start time
  is saved.
\<close>

theorem BackupDB_short_circuit:
  "(USING_MINGW h \<longrightarrow> BackupDB h w = (kDB_Backup_Disabled, [], w)) \<and>
   (\<not> USING_MINGW h \<and> GetNumSetting (gCoreContext w) ''DisableAutomaticBackup'' 0 \<noteq> 0 \<longrightarrow>
      BackupDB h w = (kDB_Backup_Disabled, [], w)) \<and>
   (\<not> USING_MINGW h \<and> GetNumSetting (gCoreContext w) ''DisableAutomaticBackup'' 0 = 0 \<and>
    IsNewDatabase (connection h) \<longrightarrow>
      BackupDB h w = (kDB_Backup_Empty_DB, [], w)) \<and>
   (fst (BackupDB h w) = kDB_Backup_Disabled \<or> fst (BackupDB h w) = kDB_Backup_Empty_DB \<longrightarrow>
      snd (snd (BackupDB h w)) = w) \<and>
   (\<not> USING_MINGW h \<and> GetNumSetting (gCoreContext w) ''DisableAutomaticBackup'' 0 = 0 \<and>
    \<not> IsNewDatabase (connection h) \<longrightarrow>
      settings (gCoreContext (snd (snd (BackupDB h w)))) ''BackupDBLastRunStart'' =
        Some (toString h (clock w) ''yyyy-MM-dd hh:mm:ss''))"
proof -
  have a: "BackupDB h w = (kDB_Backup_Disabled, [], w)" if "USING_MINGW h"
    using that by (simp add: BackupDB_def)
  have b: "BackupDB h w = (kDB_Backup_Disabled, [], w)"
    if "\<not> USING_MINGW h" "GetNumSetting (gCoreContext w) ''DisableAutomaticBackup'' 0 \<noteq> 0"
    using that by (simp add: BackupDB_def)
  have c: "BackupDB h w = (kDB_Backup_Empty_DB, [], w)"
    if "\<not> USING_MINGW h" "GetNumSetting (gCoreContext w) ''DisableAutomaticBackup'' 0 = 0"
       "IsNewDatabase (connection h)"
    using that by (simp add: BackupDB_def)
  have d: "snd (snd (BackupDB h w)) = w"
    if s: "fst (BackupDB h w) = kDB_Backup_Disabled \<or> fst (BackupDB h w) = kDB_Backup_Empty_DB"
  proof (cases "\<not> USING_MINGW h \<and>
                GetNumSetting (gCoreContext w) ''DisableAutomaticBackup'' 0 = 0 \<and>
                \<not> IsNewDatabase (connection h)")
    case True
    then have "fst (BackupDB h w) = kDB_Backup_Completed \<or> fst (BackupDB h w) = kDB_Backup_Failed"
      using BackupDB_proceeds[of h w] by blast
    with s show ?thesis by auto
  next
    case False
    then consider "USING_MINGW h"
      | "\<not> USING_MINGW h" "GetNumSetting (gCoreContext w) ''DisableAutomaticBackup'' 0 \<noteq> 0"
      | "\<not> USING_MINGW h" "GetNumSetting (gCoreContext w) ''DisableAutomaticBackup'' 0 = 0"
        "IsNewDatabase (connection h)"
      by blast
    then show ?thesis
      by cases (simp_all add: a b c)
  qed
  have e: "settings (gCoreContext (snd (snd (BackupDB h w)))) ''BackupDBLastRunStart'' =
             Some (toString h (clock w) ''yyyy-MM-dd hh:mm:ss'')"
    if "\<not> USING_MINGW h" "GetNumSetting (gCoreContext w) ''DisableAutomaticBackup'' 0 = 0"
       "\<not> IsNewDatabase (connection h)"
    using that by (rule BackupDB_records_start)
  from a b c d e show ?thesis by blast
qed

theorem BackupDB_short_circuit_witness:
  "USING_MINGW ((example_host True 0)\<lparr>USING_MINGW := True\<rparr>) \<and>
   BackupDB ((example_host True 0)\<lparr>USING_MINGW := True\<rparr>) example_world =
     (kDB_Backup_Disabled, [], example_world) \<and>
   \<not> USING_MINGW (example_host True 0) \<and>
   GetNumSetting
     (gCoreContext (example_world\<lparr>gCoreContext :=
        example_context\<lparr>num_settings := [''DisableAutomaticBackup'' \<mapsto> 1]\<rparr>\<rparr>))
     ''DisableAutomaticBackup'' 0 \<noteq> 0 \<and>
   BackupDB (example_host True 0)
     (example_world\<lparr>gCoreContext :=
        example_context\<lparr>num_settings := [''DisableAutomaticBackup'' \<mapsto> 1]\<rparr>\<rparr>) =
     (kDB_Backup_Disabled, [],
      example_world\<lparr>gCoreContext :=
        example_context\<lparr>num_settings := [''DisableAutomaticBackup'' \<mapsto> 1]\<rparr>\<rparr>) \<and>
   GetNumSetting (gCoreContext example_world) ''DisableAutomaticBackup'' 0 = 0 \<and>
   IsNewDatabase
     (connection ((example_host True 0)\<lparr>connection :=
        example_database None [''`mythconverg`.`schemalock`'']\<rparr>)) \<and>
   BackupDB
     ((example_host True 0)\<lparr>connection :=
        example_database None [''`mythconverg`.`schemalock`'']\<rparr>) example_world =
     (kDB_Backup_Empty_DB, [], example_world) \<and>
   \<not> IsNewDatabase (connection (example_host True 0)) \<and>
   settings (gCoreContext (snd (snd (BackupDB (example_host True 0) example_world))))
     ''BackupDBLastRunStart'' = Some ''43200''"
proof -
  let ?mingw = "(example_host True 0)\<lparr>USING_MINGW := True\<rparr>"
  let ?off = "example_world\<lparr>gCoreContext :=
        example_context\<lparr>num_settings := [''DisableAutomaticBackup'' \<mapsto> 1]\<rparr>\<rparr>"
  let ?fresh = "(example_host True 0)\<lparr>connection :=
        example_database None [''`mythconverg`.`schemalock`'']\<rparr>"
  have m: "USING_MINGW ?mingw" by simp
  have n: "\<not> USING_MINGW (example_host True 0)" "\<not> USING_MINGW ?fresh"
    by (simp_all add: example_host_def)
  have o: "GetNumSetting (gCoreContext ?off) ''DisableAutomaticBackup'' 0 \<noteq> 0"
    by (simp add: GetNumSetting_def)
  have z: "GetNumSetting (gCoreContext example_world) ''DisableAutomaticBackup'' 0 = 0"
    by (simp add: GetNumSetting_def example_world_def example_context_def)
  have f: "IsNewDatabase (connection ?fresh)"
    by (simp add: IsNewDatabase_def GetTables_def example_database_def endsWith_def)
  have p: "\<not> IsNewDatabase (connection (example_host True 0))"
    by (simp add: IsNewDatabase_def GetTables_def example_database_def example_host_def
          endsWith_def)
  have t: "toString (example_host True 0) (clock example_world) ''yyyy-MM-dd hh:mm:ss'' = ''43200''"
    by (simp add: example_host_def example_world_def number_int_def number.simps)
  have r1: "BackupDB ?mingw example_world = (kDB_Backup_Disabled, [], example_world)"
    using BackupDB_short_circuit[of ?mingw example_world] m by blast
  have r2: "BackupDB (example_host True 0) ?off = (kDB_Backup_Disabled, [], ?off)"
    using BackupDB_short_circuit[of "example_host True 0" ?off] n(1) o by blast
  have r3: "BackupDB ?fresh example_world = (kDB_Backup_Empty_DB, [], example_world)"
    using BackupDB_short_circuit[of ?fresh example_world] n(2) z f by blast
  have r4: "settings (gCoreContext (snd (snd (BackupDB (example_host True 0) example_world))))
     ''BackupDBLastRunStart'' = Some ''43200''"
    using BackupDB_short_circuit[of "example_host True 0" example_world] n(1) z p
    unfolding t by blast
  show ?thesis
    by (intro conjI m r1 n(1) o r2 z f r3 p r4)
qed

text \<open>
  C8. When the configuration file has been written before the command is run, the
  backup by the script and the backup by \<open>mysqldump\<close> both unlink it right after
  the command returns, whatever its exit status: the record of the call is the
  creation of the file, the command, and the unlinking of that file (followed, for
  \<open>mysqldump\<close>, by at most the compression command), and the file is gone afterwards.
\<close>

theorem DoBackup_unlinks_staged_file:
  assumes "fopen_ok h (createTempFile h ''/tmp/mythtv_db_backup_conf_XXXXXX'' (length (events w)))"
  shows "(\<exists>info command.
            events (snd (snd (DoBackup_script h backupScript filename w))) =
              events w @
              [CreateFile (createTempFile h ''/tmp/mythtv_db_backup_conf_XXXXXX'' (length (events w))) info,
               System command,
               Unlink (createTempFile h ''/tmp/mythtv_db_backup_conf_XXXXXX'' (length (events w)))]) \<and>
         conf_files (snd (snd (DoBackup_script h backupScript filename w)))
           (createTempFile h ''/tmp/mythtv_db_backup_conf_XXXXXX'' (length (events w))) = None \<and>
         (\<exists>info command rest.
            events (snd (snd (DoBackup_internal h filename w))) =
              events w @
              [CreateFile (createTempFile h ''/tmp/mythtv_db_backup_conf_XXXXXX'' (length (events w))) info,
               System command,
               Unlink (createTempFile h ''/tmp/mythtv_db_backup_conf_XXXXXX'' (length (events w)))] @ rest \<and>
            (rest = [] \<or> (\<exists>compress. rest = [System compress]))) \<and>
         conf_files (snd (snd (DoBackup_internal h filename w)))
           (createTempFile h ''/tmp/mythtv_db_backup_conf_XXXXXX'' (length (events w))) = None"
  using DoBackup_script_events[OF assms, of backupScript filename]
        DoBackup_script_removed[OF assms, of backupScript filename]
        DoBackup_internal_events[OF assms, of filename]
        DoBackup_internal_removed[OF assms, of filename]
  by blast

theorem DoBackup_unlinks_staged_file_witness:
  "fopen_ok (example_host True 3)
     (createTempFile (example_host True 3) ''/tmp/mythtv_db_backup_conf_XXXXXX'' (length (events example_world))) \<and>
   createTempFile (example_host True 3) ''/tmp/mythtv_db_backup_conf_XXXXXX'' (length (events example_world)) =
     ''/tmp/mythtv_db_backup_conf_a1b2c3'' \<and>
   exit_status (example_host True 3) ''any command'' \<noteq> GENERIC_EXIT_OK \<and>
   conf_files
     (snd (snd (DoBackup_script (example_host True 3) ''/usr/share/mythtv/mythconverg_backup.pl''
                  [] example_world)))
     ''/tmp/mythtv_db_backup_conf_a1b2c3'' = None \<and>
   conf_files (snd (snd (DoBackup_internal (example_host True 3) [] example_world)))
     ''/tmp/mythtv_db_backup_conf_a1b2c3'' = None \<and>
   last (events (snd (snd (DoBackup_internal (example_host True 3) [] example_world)))) =
     Unlink ''/tmp/mythtv_db_backup_conf_a1b2c3''"
proof -
  let ?h = "example_host True 3"
  have o: "fopen_ok ?h (createTempFile ?h ''/tmp/mythtv_db_backup_conf_XXXXXX'' (length (events example_world)))"
    by (simp add: example_host_def)
  have n: "createTempFile ?h ''/tmp/mythtv_db_backup_conf_XXXXXX'' (length (events example_world)) =
             ''/tmp/mythtv_db_backup_conf_a1b2c3''"
    by (simp add: example_host_def)
  have x: "exit_status ?h ''any command'' \<noteq> GENERIC_EXIT_OK"
    by (simp add: example_host_def GENERIC_EXIT_OK_def)
  have s: "conf_files
     (snd (snd (DoBackup_script ?h ''/usr/share/mythtv/mythconverg_backup.pl'' [] example_world)))
     ''/tmp/mythtv_db_backup_conf_a1b2c3'' = None"
    using DoBackup_unlinks_staged_file[OF o, of "''/usr/share/mythtv/mythconverg_backup.pl''" "[]"]
    unfolding n by blast
  have i: "conf_files (snd (snd (DoBackup_internal ?h [] example_world)))
     ''/tmp/mythtv_db_backup_conf_a1b2c3'' = None"
    using DoBackup_unlinks_staged_file[OF o, of "''/usr/share/mythtv/mythconverg_backup.pl''" "[]"]
    unfolding n by blast
  have f: "\<not> fst (DoBackup_internal ?h [] example_world)"
    by (simp add: backup_eval)
  have l: "last (events (snd (snd (DoBackup_internal ?h [] example_world)))) =
     Unlink ''/tmp/mythtv_db_backup_conf_a1b2c3''"
    by (simp add: backup_eval)
  show ?thesis
    by (intro conjI o n x s i l)
qed


end
